theory Spec2Isabelle
  imports Main "HOL-Library.AList"
begin

section \<open>The jobs table\<close>

text \<open>
  A row of the \<open>jobs\<close> table (migration \<open>20250620050522_small_wood.sql\<close>) with the columns
  the job operations read or write.  Timestamps are milliseconds since the epoch; a
  nullable column is an \<open>option\<close>.  The column \<open>updated_at\<close>, which a trigger refreshes
  on every update, is left out.
\<close>

datatype job_status = Queued | Running | Completed | Failed | Cancelled

type_synonym timestamp = int

record job =
  jid :: nat
  website_id :: nat
  status :: job_status
  progress :: int
  started_at :: "timestamp option"
  completed_at :: "timestamp option"
  retry_count :: int
  max_retries :: int
  result :: "string option"
  error_message :: "string option"

text \<open>
  \<open>supabase.from('jobs').update(u).eq(...)\<close>: every row that satisfies the filter is
  rewritten, every other row stays as it is.
\<close>

definition update_where :: "('r \<Rightarrow> bool) \<Rightarrow> ('r \<Rightarrow> 'r) \<Rightarrow> 'r list \<Rightarrow> 'r list" where
  "update_where P f rows = map (\<lambda>r. if P r then f r else r) rows"

text \<open>\<open>CrawlerService.triggerCrawl\<close>: the row the insert creates (column defaults filled in).\<close>

definition new_job :: "nat \<Rightarrow> nat \<Rightarrow> job" where
  "new_job i w =
     \<lparr>jid = i, website_id = w, status = Queued, progress = 0, started_at = None,
      completed_at = None, retry_count = 0, max_retries = 3, result = None,
      error_message = None\<rparr>"

subsection \<open>Lease acquisition (\<open>job-publisher/index.js\<close>, \<open>publishJobs\<close>)\<close>

definition lease_row :: "timestamp \<Rightarrow> job \<Rightarrow> job" where
  "lease_row now j = j\<lparr>status := Running, started_at := Some now, progress := 0\<rparr>"

definition acquireLease :: "timestamp \<Rightarrow> nat \<Rightarrow> job list \<Rightarrow> job list" where
  "acquireLease now i db = update_where (\<lambda>j. jid j = i \<and> status j = Queued) (lease_row now) db"

subsection \<open>\<open>RobustCrawler.updateJobStatus\<close>\<close>

text \<open>
  The update is written to the row with the given id whatever its current status is.
  \<open>result\<close> and \<open>errorMessage\<close> are written only when truthy (an empty message is not).
\<close>

definition updateJobStatus_row ::
  "timestamp \<Rightarrow> job_status \<Rightarrow> int \<Rightarrow> string option \<Rightarrow> string option \<Rightarrow> job \<Rightarrow> job" where
  "updateJobStatus_row now st p res err j =
     (let j1 = j\<lparr>status := st, progress := p\<rparr>;
          j2 = (if st = Running \<and> started_at j = None then j1\<lparr>started_at := Some now\<rparr> else j1);
          j3 = (if st = Completed \<or> st = Failed then j2\<lparr>completed_at := Some now\<rparr> else j2);
          j4 = (case res of Some r \<Rightarrow> j3\<lparr>result := Some r\<rparr> | None \<Rightarrow> j3)
      in (case err of
            Some e \<Rightarrow> if e = [] then j4 else j4\<lparr>error_message := Some e\<rparr>
          | None \<Rightarrow> j4))"

definition updateJobStatus ::
  "timestamp \<Rightarrow> nat \<Rightarrow> job_status \<Rightarrow> int \<Rightarrow> string option \<Rightarrow> string option \<Rightarrow> job list \<Rightarrow> job list" where
  "updateJobStatus now i st p res err db =
     update_where (\<lambda>j. jid j = i) (updateJobStatus_row now st p res err) db"

subsection \<open>\<open>CrawlerService.cancelJob\<close>\<close>

definition cancel_row :: "timestamp \<Rightarrow> job \<Rightarrow> job" where
  "cancel_row now j = j\<lparr>status := Cancelled, completed_at := Some now\<rparr>"

definition cancelJob :: "timestamp \<Rightarrow> nat \<Rightarrow> job list \<Rightarrow> job list" where
  "cancelJob now i db =
     update_where (\<lambda>j. jid j = i \<and> (status j = Queued \<or> status j = Running)) (cancel_row now) db"

subsection \<open>\<open>CrawlerService.retryFailedJob\<close>\<close>

datatype retry_error = FetchFailed | MaxRetriesExceeded | UpdateFailed

definition retry_row :: "int \<Rightarrow> job \<Rightarrow> job" where
  "retry_row rc j =
     j\<lparr>status := Queued, retry_count := rc + 1, error_message := None, started_at := None,
       completed_at := None, progress := 0\<rparr>"

text \<open>
  The select with \<open>.single()\<close> fails unless exactly one row has the id.  The flag
  \<open>update_fails\<close> stands for a database fault on the update call; a failed call changes
  nothing.  The function returns the outcome and the table afterwards.
\<close>

definition retryFailedJob :: "bool \<Rightarrow> nat \<Rightarrow> job list \<Rightarrow> (retry_error + unit) \<times> job list" where
  "retryFailedJob update_fails i db =
     (case filter (\<lambda>j. jid j = i) db of
        [currentJob] \<Rightarrow>
          if retry_count currentJob \<ge> max_retries currentJob then (Inl MaxRetriesExceeded, db)
          else if update_fails then (Inl UpdateFailed, db)
          else (Inr (),
                update_where (\<lambda>j. jid j = i \<and> status j = Failed)
                  (retry_row (retry_count currentJob)) db)
      | _ \<Rightarrow> (Inl FetchFailed, db))"


section \<open>The scans table and the maintenance function\<close>

datatype scan_status = ScanRunning | ScanCompleted | ScanFailed | ScanCancelled

record scan =
  scan_id :: nat
  scan_website_id :: nat
  scan_started_at :: timestamp
  scan_completed_at :: "timestamp option"
  scan_status :: scan_status
  total_pages :: int
  new_pages :: int
  changed_pages :: int
  removed_pages :: int
  error_pages :: int
  duration :: "int option"
  scanned_urls :: "string list option"

record database =
  jobs :: "job list"
  scans :: "scan list"

text \<open>
  \<open>job-maintenance/index.js\<close>, \<open>maintainJobs\<close>.  Each database call can fail; the flags
  say which ones do in a given run, and a failed call changes nothing.  The three clock
  readings are the three \<open>new Date()\<close> the function takes: \<open>t1\<close> for \<open>twoHoursAgo\<close>,
  \<open>t2\<close> for the \<open>completed_at\<close> it writes, \<open>t3\<close> for \<open>thirtyDaysAgo\<close>.  The last step
  refreshes a materialized view and writes to neither table; \<open>refresh_fails\<close> is a failure
  other than the view not existing, the only one the function reports.
\<close>

record maint_faults =
  fetch_stuck_fails :: bool
  update_stuck_fails :: bool
  fetch_old_fails :: bool
  delete_old_fails :: bool
  refresh_fails :: bool

datatype maint_error = StuckJobsResetFailed | OldJobsCleanupFailed | StatsRefreshFailed

record maint_results =
  stuckJobsReset :: nat
  oldJobsDeleted :: nat
  errors :: "maint_error list"

definition two_hours :: int where
  "two_hours = 2 * 60 * 60 * 1000"

definition thirty_days :: int where
  "thirty_days = 30 * 24 * 60 * 60 * 1000"

definition is_stuck :: "timestamp \<Rightarrow> job \<Rightarrow> bool" where
  "is_stuck t1 j =
     (status j = Running \<and> (case started_at j of Some s \<Rightarrow> s < t1 - two_hours | None \<Rightarrow> False))"

definition timeout_row :: "timestamp \<Rightarrow> job \<Rightarrow> job" where
  "timeout_row t2 j =
     j\<lparr>status := Failed, completed_at := Some t2,
       error_message := Some ''Job timed out after 2 hours''\<rparr>"

definition reset_stuck_jobs ::
  "maint_faults \<Rightarrow> timestamp \<Rightarrow> timestamp \<Rightarrow> database \<times> maint_results \<Rightarrow> database \<times> maint_results" where
  "reset_stuck_jobs f t1 t2 st =
     (case st of (db, res) \<Rightarrow>
        if fetch_stuck_fails f then (db, res\<lparr>errors := errors res @ [StuckJobsResetFailed]\<rparr>)
        else
          let stuckJobs = filter (is_stuck t1) (jobs db) in
          if stuckJobs \<noteq> [] then
            if update_stuck_fails f then (db, res\<lparr>errors := errors res @ [StuckJobsResetFailed]\<rparr>)
            else (db\<lparr>jobs := update_where (\<lambda>j. jid j \<in> set (map jid stuckJobs)) (timeout_row t2) (jobs db)\<rparr>,
                  res\<lparr>stuckJobsReset := length stuckJobs\<rparr>)
          else (db, res))"

definition is_old :: "timestamp \<Rightarrow> job \<Rightarrow> bool" where
  "is_old t3 j =
     ((status j = Completed \<or> status j = Failed) \<and>
      (case completed_at j of Some c \<Rightarrow> c < t3 - thirty_days | None \<Rightarrow> False))"

definition delete_old_jobs ::
  "maint_faults \<Rightarrow> timestamp \<Rightarrow> database \<times> maint_results \<Rightarrow> database \<times> maint_results" where
  "delete_old_jobs f t3 st =
     (case st of (db, res) \<Rightarrow>
        if fetch_old_fails f then (db, res\<lparr>errors := errors res @ [OldJobsCleanupFailed]\<rparr>)
        else
          let oldJobs = filter (is_old t3) (jobs db) in
          if oldJobs \<noteq> [] then
            if delete_old_fails f then (db, res\<lparr>errors := errors res @ [OldJobsCleanupFailed]\<rparr>)
            else (db\<lparr>jobs := filter (\<lambda>j. jid j \<notin> set (map jid oldJobs)) (jobs db)\<rparr>,
                  res\<lparr>oldJobsDeleted := length oldJobs\<rparr>)
          else (db, res))"

definition refresh_website_stats ::
  "maint_faults \<Rightarrow> database \<times> maint_results \<Rightarrow> database \<times> maint_results" where
  "refresh_website_stats f st =
     (case st of (db, res) \<Rightarrow>
        if refresh_fails f then (db, res\<lparr>errors := errors res @ [StatsRefreshFailed]\<rparr>)
        else (db, res))"

definition maintainJobs ::
  "maint_faults \<Rightarrow> timestamp \<Rightarrow> timestamp \<Rightarrow> timestamp \<Rightarrow> database \<Rightarrow> database \<times> maint_results" where
  "maintainJobs f t1 t2 t3 db =
     refresh_website_stats f
       (delete_old_jobs f t3
          (reset_stuck_jobs f t1 t2
             (db, \<lparr>stuckJobsReset = 0, oldJobsDeleted = 0, errors = []\<rparr>)))"

definition no_faults :: maint_faults where
  "no_faults =
     \<lparr>fetch_stuck_fails = False, update_stuck_fails = False, fetch_old_fails = False,
      delete_old_fails = False, refresh_fails = False\<rparr>"

section \<open>The job state machine\<close>

text \<open>
  Every statement of the sources that writes a job row, as one operation on the table.
  A statement whose values or filter come from an earlier \<open>SELECT\<close> takes what that
  \<open>SELECT\<close> returned as an argument, since the row can change between the two.

  \<^item> \<open>OpInsert\<close>: the insert of \<open>triggerCrawl\<close>.
  \<^item> \<open>OpPublisherLease\<close>: the update of \<open>publishJobs\<close>, filtered by id and status \<open>queued\<close>.
  \<^item> \<open>OpProcessorLease\<close>: the update of \<open>JobProcessor.processQueuedJobs\<close>, filtered by
    id only.
  \<^item> \<open>OpStatus\<close>: the update of \<open>RobustCrawler.updateJobStatus\<close>, filtered by id only;
    its fourth argument is the start time \<open>getJobStartTime\<close> read before.
  \<^item> \<open>OpProcessorFail\<close>: the update in the \<open>catch\<close> of \<open>JobProcessor.processJobAsync\<close>,
    filtered by id only; it does not write the progress.
  \<^item> \<open>OpCancel\<close>: the update of \<open>cancelJob\<close>, filtered by id and status.
  \<^item> \<open>OpRetry\<close>: the update of \<open>retryFailedJob\<close>, filtered by id and status \<open>failed\<close>;
    its second argument is the retry count read before.
  \<^item> \<open>OpReap\<close>: the update of \<open>maintainJobs\<close> and of \<open>JobProcessor.resetStuckJobs\<close>,
    filtered by the ids the \<open>SELECT\<close> of the stuck jobs returned.
  \<^item> \<open>OpSqlReset\<close>: the update of the SQL function \<open>reset_stuck_jobs\<close>, filtered by status
    \<open>running\<close> and a start time before the threshold \<open>NOW() - hours_stuck\<close>; its
    arguments are that threshold and the message the function builds.

  The clean-up deletes (\<open>maintainJobs\<close>, \<open>JobProcessor.cleanupOldJobs\<close>, the SQL function
  \<open>cleanup_old_jobs\<close>) remove rows and change none.
\<close>

datatype job_op =
    OpInsert nat nat
  | OpPublisherLease nat
  | OpProcessorLease nat
  | OpStatus nat job_status int "timestamp option" "string option" "string option"
  | OpProcessorFail nat string
  | OpCancel nat
  | OpRetry nat int
  | OpReap "nat list"
  | OpSqlReset timestamp string

text \<open>
  The row \<open>updateJobStatus\<close> writes, given the start time read before (\<open>seen\<close>); for a
  status other than \<open>running\<close> the start time is not read and \<open>seen\<close> is not used.
\<close>

definition status_update_row ::
  "timestamp \<Rightarrow> job_status \<Rightarrow> int \<Rightarrow> timestamp option \<Rightarrow> string option \<Rightarrow> string option \<Rightarrow> job \<Rightarrow> job" where
  "status_update_row now st p seen res err j =
     (let j1 = j\<lparr>status := st, progress := p\<rparr>;
          j2 = (if st = Running \<and> seen = None then j1\<lparr>started_at := Some now\<rparr> else j1);
          j3 = (if st = Completed \<or> st = Failed then j2\<lparr>completed_at := Some now\<rparr> else j2);
          j4 = (case res of Some r \<Rightarrow> j3\<lparr>result := Some r\<rparr> | None \<Rightarrow> j3)
      in (case err of
            Some e \<Rightarrow> if e = [] then j4 else j4\<lparr>error_message := Some e\<rparr>
          | None \<Rightarrow> j4))"

text \<open>
  The row written by the processor's failure update and by the SQL reset: status,
  completion time and message.
\<close>

definition processor_fail_row :: "timestamp \<Rightarrow> string \<Rightarrow> job \<Rightarrow> job" where
  "processor_fail_row now msg j =
     j\<lparr>status := Failed, completed_at := Some now, error_message := Some msg\<rparr>"

fun apply_op :: "timestamp \<Rightarrow> job_op \<Rightarrow> job list \<Rightarrow> job list" where
  "apply_op now (OpInsert i w) db = db @ [new_job i w]"
| "apply_op now (OpPublisherLease i) db = acquireLease now i db"
| "apply_op now (OpProcessorLease i) db = update_where (\<lambda>j. jid j = i) (lease_row now) db"
| "apply_op now (OpStatus i st p seen res err) db =
     update_where (\<lambda>j. jid j = i) (status_update_row now st p seen res err) db"
| "apply_op now (OpProcessorFail i msg) db =
     update_where (\<lambda>j. jid j = i) (processor_fail_row now msg) db"
| "apply_op now (OpCancel i) db = cancelJob now i db"
| "apply_op now (OpRetry i rc) db =
     update_where (\<lambda>j. jid j = i \<and> status j = Failed) (retry_row rc) db"
| "apply_op now (OpReap ids) db = update_where (\<lambda>j. jid j \<in> set ids) (timeout_row now) db"
| "apply_op now (OpSqlReset threshold msg) db =
     update_where
       (\<lambda>j. status j = Running \<and>
            (case started_at j of Some s \<Rightarrow> s < threshold | None \<Rightarrow> False))
       (processor_fail_row now msg) db"






text \<open>A job that failed once, after one retry already, used in the examples below.\<close>

definition failed_job :: job where
  "failed_job =
     (new_job 1 7)\<lparr>status := Failed, progress := 0, started_at := Some 1000,
       completed_at := Some 2000, retry_count := 1, error_message := Some ''boom''\<rparr>"

text \<open>
  A job that has been running for three hours at time \<open>10800000\<close>, and the scan row its
  worker created for the same website.
\<close>

definition stuck_job :: job where
  "stuck_job = (new_job 1 7)\<lparr>status := Running, progress := 25, started_at := Some 0\<rparr>"

definition stuck_scan :: scan where
  "stuck_scan =
     \<lparr>scan_id = 1, scan_website_id = 7, scan_started_at = 5, scan_completed_at = None,
      scan_status = ScanRunning, total_pages = 0, new_pages = 0, changed_pages = 0,
      removed_pages = 0, error_pages = 0, duration = None, scanned_urls = None\<rparr>"

definition stuck_db :: database where
  "stuck_db = \<lparr>jobs = [stuck_job, new_job 2 7], scans = [stuck_scan]\<rparr>"


section \<open>The pattern matcher (\<open>RobustCrawler.matchesPattern\<close>, \<open>matchesPatterns\<close>)\<close>

text \<open>
  \<open>pattern.replace(/\*/g, '.*').replace(/\?/g, '.')\<close>: every occurrence of one character
  is replaced by a string.
\<close>

definition replace_all :: "char \<Rightarrow> string \<Rightarrow> string \<Rightarrow> string" where
  "replace_all c r s = concat (map (\<lambda>x. if x = c then r else [x]) s)"

definition glob_to_regex :: "string \<Rightarrow> string" where
  "glob_to_regex pattern = replace_all CHR ''?'' ''.'' (replace_all CHR ''*'' ''.*'' pattern)"

text \<open>
  \<open>new RegExp(source).test(url)\<close> is the platform's regular-expression engine, not code of
  the repository.  The matcher takes it as a parameter: a function from the regular
  expression's source and the subject string to a verdict, or to an error:
  \<open>SyntaxError\<close> when the constructor throws, \<open>Unsupported\<close> when a model of the engine
  does not cover the source.
\<close>

datatype regex_error = SyntaxError | Unsupported

type_synonym regex_engine = "string \<Rightarrow> string \<Rightarrow> regex_error + bool"

definition matchesPattern :: "regex_engine \<Rightarrow> string \<Rightarrow> string \<Rightarrow> regex_error + bool" where
  "matchesPattern rt url pattern = rt (glob_to_regex pattern) url"

record pattern_config =
  pattern :: string
  enabled :: bool

text \<open>The two loops of \<open>matchesPatterns\<close>; an exception of the matcher leaves the function.\<close>

fun exclude_loop :: "regex_engine \<Rightarrow> string \<Rightarrow> string list \<Rightarrow> regex_error + bool" where
  "exclude_loop rt url [] = Inr False"
| "exclude_loop rt url (p # ps) =
     (case matchesPattern rt url p of
        Inl e \<Rightarrow> Inl e
      | Inr b \<Rightarrow> if b then Inr True else exclude_loop rt url ps)"

fun include_loop :: "regex_engine \<Rightarrow> string \<Rightarrow> pattern_config list \<Rightarrow> regex_error + bool" where
  "include_loop rt url [] = Inr False"
| "include_loop rt url (pc # pcs) =
     (if enabled pc then
        (case matchesPattern rt url (pattern pc) of
           Inl e \<Rightarrow> Inl e
         | Inr b \<Rightarrow> if b then Inr True else include_loop rt url pcs)
      else include_loop rt url pcs)"

definition matchesPatterns ::
  "regex_engine \<Rightarrow> string \<Rightarrow> pattern_config list \<Rightarrow> string list \<Rightarrow> regex_error + bool" where
  "matchesPatterns rt url includePatterns excludePatterns =
     (case exclude_loop rt url excludePatterns of
        Inl e \<Rightarrow> Inl e
      | Inr excluded \<Rightarrow>
          if excluded then Inr False
          else if includePatterns = [] then Inr True
          else include_loop rt url includePatterns)"

subsection \<open>The regular expressions the translation produces\<close>

text \<open>
  A model of the engine on the fragment the translation of a glob pattern lands in: a
  sequence of literal characters, \<open>.\<close> (any character but a line terminator) and \<open>.*\<close>.
  A source with any other syntax character (\<open>^ $ \ + ? ( ) [ ] { } |\<close>, or a \<open>*\<close> that does
  not follow a \<open>.\<close>) is outside the fragment.  Where the fragment ends at an opening
  parenthesis that no closing parenthesis follows, the group is unterminated and the
  constructor throws: the model yields \<open>SyntaxError\<close>.  Otherwise it yields \<open>Unsupported\<close>
  and says nothing about the engine.  \<open>test\<close> without the global flag looks for a match
  starting at any position.
\<close>

datatype regex_item = Lit char | AnyChar | AnyStar

definition is_syntax_char :: "char \<Rightarrow> bool" where
  "is_syntax_char c = (c \<in> set (CHR 0x5C # ''^$.*+?()[]{}|''))"

definition line_terminator :: "char \<Rightarrow> bool" where
  "line_terminator c = (c = CHR 0x0A \<or> c = CHR 0x0D)"

definition reject :: "char \<Rightarrow> string \<Rightarrow> regex_error" where
  "reject c rest = (if c = CHR ''('' \<and> CHR '')'' \<notin> set rest then SyntaxError else Unsupported)"

fun regex_parse :: "string \<Rightarrow> regex_error + regex_item list" where
  "regex_parse [] = Inr []"
| "regex_parse [c] =
     (if c = CHR ''.'' then Inr [AnyChar]
      else if is_syntax_char c then Inl (reject c [])
      else Inr [Lit c])"
| "regex_parse (c # d # ds) =
     (if c = CHR ''.'' \<and> d = CHR ''*'' then map_sum id (Cons AnyStar) (regex_parse ds)
      else if c = CHR ''.'' then map_sum id (Cons AnyChar) (regex_parse (d # ds))
      else if is_syntax_char c then Inl (reject c (d # ds))
      else map_sum id (Cons (Lit c)) (regex_parse (d # ds)))"

fun match_here :: "regex_item list \<Rightarrow> string \<Rightarrow> bool" where
  "match_here [] s = True"
| "match_here (Lit c # r) [] = False"
| "match_here (Lit c # r) (x # xs) = (x = c \<and> match_here r xs)"
| "match_here (AnyChar # r) [] = False"
| "match_here (AnyChar # r) (x # xs) = (\<not> line_terminator x \<and> match_here r xs)"
| "match_here (AnyStar # r) [] = match_here r []"
| "match_here (AnyStar # r) (x # xs) =
     (match_here r (x # xs) \<or> (\<not> line_terminator x \<and> match_here (AnyStar # r) xs))"

fun regex_search :: "regex_item list \<Rightarrow> string \<Rightarrow> bool" where
  "regex_search r [] = match_here r []"
| "regex_search r (x # xs) = (match_here r (x # xs) \<or> regex_search r xs)"

definition js_regexp_test :: regex_engine where
  "js_regexp_test source s =
     (case regex_parse source of Inl e \<Rightarrow> Inl e | Inr r \<Rightarrow> Inr (regex_search r s))"

text \<open>
  The specification's reading of a glob pattern: the whole string must fit, \<open>*\<close> stands
  for any run of characters, \<open>?\<close> for one character, and every other character for
  itself.
\<close>

fun spec_glob_match :: "string \<Rightarrow> string \<Rightarrow> bool" where
  "spec_glob_match [] s = (s = [])"
| "spec_glob_match (c # p) [] = (c = CHR ''*'' \<and> spec_glob_match p [])"
| "spec_glob_match (c # p) (x # xs) =
     (if c = CHR ''*'' then spec_glob_match p (x # xs) \<or> spec_glob_match (c # p) xs
      else (c = CHR ''?'' \<or> c = x) \<and> spec_glob_match p xs)"

text \<open>
  What a pattern stands for in the code: \<open>*\<close> for any run of characters without a line
  terminator, \<open>?\<close> and also \<open>.\<close> for one such character, any other character for itself.
\<close>

fun loose_fits :: "string \<Rightarrow> string \<Rightarrow> bool" where
  "loose_fits [] s = (s = [])"
| "loose_fits (c # p) [] = (c = CHR ''*'' \<and> loose_fits p [])"
| "loose_fits (c # p) (x # xs) =
     (if c = CHR ''*'' then loose_fits p (x # xs) \<or> (\<not> line_terminator x \<and> loose_fits (c # p) xs)
      else (if c = CHR ''?'' \<or> c = CHR ''.'' then \<not> line_terminator x else c = x) \<and>
           loose_fits p xs)"

text \<open>A pattern whose translation stays in the fragment: no syntax character but \<open>. * ?\<close>.\<close>

definition plain_glob :: "string \<Rightarrow> bool" where
  "plain_glob p = list_all (\<lambda>c. c = CHR ''.'' \<or> c = CHR ''*'' \<or> c = CHR ''?'' \<or> \<not> is_syntax_char c) p"

text \<open>The translation, character by character, and the item a pattern character becomes.\<close>

definition tr_char :: "char \<Rightarrow> string" where
  "tr_char c = (if c = CHR ''*'' then ''.*'' else if c = CHR ''?'' then ''.'' else [c])"

definition item_of :: "char \<Rightarrow> regex_item" where
  "item_of c =
     (if c = CHR ''*'' then AnyStar else if c = CHR ''?'' \<or> c = CHR ''.'' then AnyChar else Lit c)"

section \<open>Scan completion (\<open>RobustCrawler.processJob\<close>)\<close>

text \<open>
  A \<open>CrawlResult\<close>, with the fields the completion step reads (the extracted fields are
  left out).  \<open>processUrl\<close> gives a failed fetch the response code 0 and the empty hash.
\<close>

record crawl_result =
  result_url :: string
  response_code :: int
  load_time :: int
  content_hash :: string

text \<open>
  The update \<open>processJob\<close> writes to the scan row once the results are saved.  The columns
  \<open>changed_pages\<close> and \<open>removed_pages\<close> are not part of the update.
\<close>

definition complete_scan :: "timestamp \<Rightarrow> string list \<Rightarrow> crawl_result list \<Rightarrow> scan \<Rightarrow> scan" where
  "complete_scan now urls results s =
     s\<lparr>scan_status := ScanCompleted,
       scan_completed_at := Some now,
       duration := Some ((now - scan_started_at s) div 1000),
       total_pages := int (length results),
       new_pages := int (length (filter (\<lambda>r. response_code r = 200) results)),
       error_pages := int (length (filter (\<lambda>r. response_code r \<ge> 400) results)),
       scanned_urls := Some (take 1000 urls)\<rparr>"

text \<open>
  The counters in the specification's words, against the previous scan of the site given
  as its list of (URL, content hash) pairs.
\<close>

definition spec_newPages :: "(string \<times> string) list \<Rightarrow> crawl_result list \<Rightarrow> int" where
  "spec_newPages prev results =
     int (length (filter (\<lambda>u. u \<notin> fst ` set prev) (remdups (map result_url results))))"

definition spec_removedPages :: "(string \<times> string) list \<Rightarrow> crawl_result list \<Rightarrow> int" where
  "spec_removedPages prev results =
     int (length (filter (\<lambda>u. u \<notin> result_url ` set results) (remdups (map fst prev))))"

definition spec_changedPages :: "(string \<times> string) list \<Rightarrow> crawl_result list \<Rightarrow> int" where
  "spec_changedPages prev results =
     int (length (filter (\<lambda>u. \<exists>h. map_of prev u = Some h \<and>
                                  map_of (map (\<lambda>r. (result_url r, content_hash r)) results) u \<noteq> Some h)
                    (filter (\<lambda>u. u \<in> fst ` set prev) (remdups (map result_url results)))))"

definition spec_errorPages :: "crawl_result list \<Rightarrow> int" where
  "spec_errorPages results =
     int (length (filter (\<lambda>r. \<not> (200 \<le> response_code r \<and> response_code r < 400)) results))"

text \<open>A site scanned twice: the page \<open>/b\<close> has gone, the page \<open>/a\<close> is unchanged.\<close>

definition previous_scan :: "(string \<times> string) list" where
  "previous_scan = [(''https://a.example/a'', ''h1''), (''https://a.example/b'', ''h2'')]"

definition second_results :: "crawl_result list" where
  "second_results =
     [\<lparr>result_url = ''https://a.example/a'', response_code = 200, load_time = 12,
       content_hash = ''h1''\<rparr>]"

definition fresh_scan :: scan where
  "fresh_scan =
     \<lparr>scan_id = 2, scan_website_id = 7, scan_started_at = 1000, scan_completed_at = None,
      scan_status = ScanRunning, total_pages = 0, new_pages = 0, changed_pages = 0,
      removed_pages = 0, error_pages = 0, duration = None, scanned_urls = None\<rparr>"

section \<open>The run comparison (\<open>src/hooks/useRunComparison.ts\<close>)\<close>

datatype impact = Low | Medium | High

datatype change_kind = Added | Removed | Modified

text \<open>A \<open>FieldChange\<close>; its \<open>type\<close> field is \<open>change_type\<close> here.\<close>

record field_change =
  field :: string
  change_type :: change_kind
  oldValue :: "string option"
  newValue :: "string option"
  impact :: impact

text \<open>A \<open>HeaderStructure\<close>; its \<open>text\<close> field is \<open>htext\<close> here.\<close>

record header_structure =
  level :: nat
  htext :: string

text \<open>
  A \<open>PageSnapshot\<close>, with the fields the comparison reads (its \<open>url\<close> field is
  \<open>snapshot_url\<close> here).  An optional field is an
  \<open>option\<close>; \<open>customData\<close> (a \<open>Record<string, string>\<close>) is the list of its entries in
  insertion order, each key once.
\<close>

record page_snapshot =
  snapshot_url :: string
  title :: "string option"
  metaDescription :: "string option"
  canonicalUrl :: "string option"
  breadcrumbs :: "string list"
  headers :: "header_structure list"
  customData :: "(string \<times> string) list"

text \<open>Decimal digits of a number, as a template literal prints it.\<close>

fun string_of_nat :: "nat \<Rightarrow> string" where
  "string_of_nat n =
     (if n < 10 then [''0123456789'' ! n]
      else string_of_nat (n div 10) @ [''0123456789'' ! (n mod 10)])"

text \<open>\<open>Array.prototype.join\<close> on an array of strings.\<close>

fun join :: "string \<Rightarrow> string list \<Rightarrow> string" where
  "join sep [] = []"
| "join sep [x] = x"
| "join sep (x # y # ys) = x @ sep @ join sep (y # ys)"

text \<open>A string that is present and not empty (JavaScript truthiness of \<open>string | undefined\<close>).\<close>

definition truthy_str :: "string option \<Rightarrow> bool" where
  "truthy_str v = (case v of Some s \<Rightarrow> s \<noteq> [] | None \<Rightarrow> False)"

subsection \<open>\<open>compareHeaders\<close>\<close>

text \<open>
  The two maps are keyed by \<open>`${h.level}-${i}`\<close> with \<open>i\<close> the position in the array; the
  key is kept as the pair.  A \<open>Map\<close> is iterated in insertion order.
\<close>

definition header_map :: "header_structure list \<Rightarrow> ((nat \<times> nat) \<times> header_structure) list" where
  "header_map hs = map (\<lambda>(i, h). ((level h, i), h)) (enumerate 0 hs)"

definition header_impact :: "nat \<Rightarrow> impact" where
  "header_impact l = (if l \<le> 2 then High else Medium)"

definition header_field :: "nat \<Rightarrow> string" where
  "header_field l = ''header-h'' @ string_of_nat l"

definition compareHeaders :: "header_structure list \<Rightarrow> header_structure list \<Rightarrow> field_change list" where
  "compareHeaders baseHeaders compareHeaders' =
     (let baseMap = header_map baseHeaders;
          compareMap = header_map compareHeaders'
      in [\<lparr>field = header_field (level header), change_type = Removed,
            oldValue = Some (htext header), newValue = None,
            impact = header_impact (level header)\<rparr>.
            (key, header) \<leftarrow> baseMap, map_of compareMap key = None] @
         [\<lparr>field = header_field (level header), change_type = Added,
            oldValue = None, newValue = Some (htext header),
            impact = header_impact (level header)\<rparr>.
            (key, header) \<leftarrow> compareMap, map_of baseMap key = None] @
         [\<lparr>field = header_field (level baseHeader), change_type = Modified,
            oldValue = Some (htext baseHeader), newValue = Some (htext compareHeader),
            impact = header_impact (level baseHeader)\<rparr>.
            (key, baseHeader) \<leftarrow> baseMap,
            compareHeader \<leftarrow> (case map_of compareMap key of None \<Rightarrow> [] | Some c \<Rightarrow> [c]),
            htext baseHeader \<noteq> htext compareHeader])"

subsection \<open>\<open>compareSnapshots\<close>\<close>

definition custom_keys :: "(string \<times> string) list \<Rightarrow> (string \<times> string) list \<Rightarrow> string list" where
  "custom_keys b c = map fst b @ filter (\<lambda>k. k \<notin> set (map fst b)) (map fst c)"

fun compareSnapshots :: "page_snapshot option \<Rightarrow> page_snapshot option \<Rightarrow> field_change list" where
  "compareSnapshots None (Some compare) =
     (if truthy_str (title compare)
      then [\<lparr>field = ''title'', change_type = Added, oldValue = None,
              newValue = title compare, impact = High\<rparr>] else []) @
     (if truthy_str (metaDescription compare)
      then [\<lparr>field = ''metaDescription'', change_type = Added, oldValue = None,
              newValue = metaDescription compare, impact = Medium\<rparr>] else []) @
     (if length (breadcrumbs compare) > 0
      then [\<lparr>field = ''breadcrumbs'', change_type = Added, oldValue = None,
              newValue = Some (join '' > '' (breadcrumbs compare)), impact = Low\<rparr>] else []) @
     (if length (headers compare) > 0 then compareHeaders [] (headers compare) else [])"
| "compareSnapshots (Some base) None =
     (if truthy_str (title base)
      then [\<lparr>field = ''title'', change_type = Removed, oldValue = title base,
              newValue = None, impact = High\<rparr>] else []) @
     (if length (breadcrumbs base) > 0
      then [\<lparr>field = ''breadcrumbs'', change_type = Removed,
              oldValue = Some (join '' > '' (breadcrumbs base)), newValue = None,
              impact = Low\<rparr>] else []) @
     (if length (headers base) > 0 then compareHeaders (headers base) [] else [])"
| "compareSnapshots None None = []"
| "compareSnapshots (Some base) (Some compare) =
     (if title base \<noteq> title compare
      then [\<lparr>field = ''title'', change_type = Modified, oldValue = title base,
              newValue = title compare, impact = High\<rparr>] else []) @
     (if metaDescription base \<noteq> metaDescription compare
      then [\<lparr>field = ''metaDescription'', change_type = Modified,
              oldValue = metaDescription base, newValue = metaDescription compare,
              impact = Medium\<rparr>] else []) @
     (if canonicalUrl base \<noteq> canonicalUrl compare
      then [\<lparr>field = ''canonicalUrl'', change_type = Modified, oldValue = canonicalUrl base,
              newValue = canonicalUrl compare, impact = Medium\<rparr>] else []) @
     (if breadcrumbs base \<noteq> breadcrumbs compare
      then [\<lparr>field = ''breadcrumbs'', change_type = Modified,
              oldValue = Some (join '' > '' (breadcrumbs base)),
              newValue = Some (join '' > '' (breadcrumbs compare)), impact = Low\<rparr>] else []) @
     compareHeaders (headers base) (headers compare) @
     [\<lparr>field = key, change_type = Modified, oldValue = map_of (customData base) key,
       newValue = map_of (customData compare) key,
       impact = (if key = ''price'' then High else Low)\<rparr>.
       key \<leftarrow> custom_keys (customData base) (customData compare),
       map_of (customData base) key \<noteq> map_of (customData compare) key]"

subsection \<open>The comparison of two runs (the effect in \<open>useRunComparison\<close>)\<close>

datatype page_change = PageAdded | PageRemoved | PageModified | PageUnchanged

text \<open>A \<open>PageComparisonResult\<close>; its \<open>url\<close> field is \<open>page_url\<close> here.\<close>

record page_comparison_result =
  page_url :: string
  baseSnapshot :: "page_snapshot option"
  compareSnapshot :: "page_snapshot option"
  changeType :: page_change
  changes :: "field_change list"
  severity :: impact

record run_comparison =
  newPages :: "page_snapshot list"
  removedPages :: "page_snapshot list"
  modifiedPages :: "page_comparison_result list"
  unchangedPages :: nat
  pageChanges :: "page_comparison_result list"

text \<open>\<open>new Map(entries)\<close>: a later entry for a key replaces the value and keeps the position.\<close>

definition js_map :: "('k \<times> 'v) list \<Rightarrow> ('k \<times> 'v) list" where
  "js_map entries = fold (\<lambda>(k, v) m. AList.update k v m) entries []"

definition severity_of :: "field_change list \<Rightarrow> impact" where
  "severity_of cs =
     (if list_ex (\<lambda>c. impact c = High) cs then High
      else if list_ex (\<lambda>c. impact c = Medium) cs then Medium
      else Low)"

definition compare_page ::
  "(string \<times> page_snapshot) list \<Rightarrow> (string \<times> page_snapshot) list \<Rightarrow> string \<Rightarrow> page_comparison_result" where
  "compare_page baseMap compareMap u =
     (let b = map_of baseMap u;
          c = map_of compareMap u;
          cs = (if b = None \<and> c \<noteq> None then compareSnapshots None c
                else if b \<noteq> None \<and> c = None then compareSnapshots b None
                else if b \<noteq> None \<and> c \<noteq> None then compareSnapshots b c
                else []);
          ty = (if b = None \<and> c \<noteq> None then PageAdded
                else if b \<noteq> None \<and> c = None then PageRemoved
                else if b \<noteq> None \<and> c \<noteq> None \<and> length cs > 0 then PageModified
                else PageUnchanged)
      in \<lparr>page_url = u, baseSnapshot = b, compareSnapshot = c, changeType = ty, changes = cs,
          severity = severity_of cs\<rparr>)"

definition compareRuns :: "page_snapshot list \<Rightarrow> page_snapshot list \<Rightarrow> run_comparison" where
  "compareRuns baseSnapshotsData compareSnapshotsData =
     (let baseMap = js_map (map (\<lambda>s. (snapshot_url s, s)) baseSnapshotsData);
          compareMap = js_map (map (\<lambda>s. (snapshot_url s, s)) compareSnapshotsData);
          allUrls = map fst baseMap @ filter (\<lambda>u. u \<notin> set (map fst baseMap)) (map fst compareMap);
          results = map (compare_page baseMap compareMap) allUrls
      in \<lparr>newPages = List.map_filter
                         (\<lambda>r. if changeType r = PageAdded then compareSnapshot r else None) results,
          removedPages = List.map_filter
                         (\<lambda>r. if changeType r = PageRemoved then baseSnapshot r else None) results,
          modifiedPages = filter (\<lambda>r. changeType r = PageModified) results,
          unchangedPages = length (filter (\<lambda>r. baseSnapshot r \<noteq> None \<and> compareSnapshot r \<noteq> None \<and>
                                                changes r = []) results),
          pageChanges = results\<rparr>)"

text \<open>
  The severity in the specification's words: the greatest impact of the changes, in the
  order \<open>low < medium < high\<close>, and none for an empty list.
\<close>

fun impact_rank :: "impact \<Rightarrow> nat" where
  "impact_rank Low = 0"
| "impact_rank Medium = 1"
| "impact_rank High = 2"

definition max_impact :: "impact \<Rightarrow> impact \<Rightarrow> impact" where
  "max_impact a b = (if impact_rank a \<le> impact_rank b then b else a)"

fun spec_severity :: "field_change list \<Rightarrow> impact option" where
  "spec_severity [] = None"
| "spec_severity (c # cs) = Some (fold (\<lambda>c m. max_impact (impact c) m) cs (impact c))"

text \<open>A page without a title element, and the same page with one.\<close>

definition about_page :: page_snapshot where
  "about_page =
     \<lparr>snapshot_url = ''https://a.example/about'', title = None, metaDescription = Some ''About us'',
      canonicalUrl = None, breadcrumbs = [], headers = [], customData = []\<rparr>"

definition titled_page :: page_snapshot where
  "titled_page = about_page\<lparr>title := Some ''About''\<rparr>"

section \<open>JavaScript values\<close>

text \<open>
  The values \<open>deepMerge\<close> and the JSON-LD reader work on: what \<open>JSON.parse\<close> returns, and
  \<open>undefined\<close>.  An object is the list of its own properties, each key once; numbers
  are integers.

  \<open>get_prop\<close> is the lookup of an own property, with \<open>undefined\<close> for a key the value
  does not have.  The JSON-LD reader uses it for the keys \<open>@type\<close>, \<open>itemListElement\<close> and
  \<open>name\<close>, which no prototype of these values defines.  \<open>deepMerge\<close> looks up arbitrary
  keys and has a lookup of its own below.

  Of the errors, \<open>TypeError\<close> is the exception the code throws; \<open>Unsupported\<close> marks a step
  the model does not cover, and says nothing about the code.
\<close>

datatype jv =
    JNull
  | JUndefined
  | JBool bool
  | JNum int
  | JStr string
  | JArr "jv list"
  | JObj "(string \<times> jv) list"

datatype js_error = TypeError | Unsupported

fun truthy :: "jv \<Rightarrow> bool" where
  "truthy JNull = False"
| "truthy JUndefined = False"
| "truthy (JBool b) = b"
| "truthy (JNum n) = (n \<noteq> 0)"
| "truthy (JStr s) = (s \<noteq> [])"
| "truthy (JArr xs) = True"
| "truthy (JObj kvs) = True"

text \<open>\<open>typeof v === 'object'\<close>.\<close>

fun typeof_object :: "jv \<Rightarrow> bool" where
  "typeof_object JNull = True"
| "typeof_object (JArr xs) = True"
| "typeof_object (JObj kvs) = True"
| "typeof_object _ = False"

text \<open>The index an array or string property key denotes, if any.\<close>

definition index_of_key :: "string \<Rightarrow> nat \<Rightarrow> nat option" where
  "index_of_key k n = find (\<lambda>i. string_of_nat i = k) [0..<n]"

text \<open>\<open>v[key]\<close>: a \<open>TypeError\<close> on \<open>null\<close> and \<open>undefined\<close>.\<close>

fun get_prop :: "jv \<Rightarrow> string \<Rightarrow> js_error + jv" where
  "get_prop JNull k = Inl TypeError"
| "get_prop JUndefined k = Inl TypeError"
| "get_prop (JObj kvs) k = Inr (case map_of kvs k of Some v \<Rightarrow> v | None \<Rightarrow> JUndefined)"
| "get_prop (JArr xs) k =
     Inr (case index_of_key k (length xs) of
            Some i \<Rightarrow> xs ! i
          | None \<Rightarrow> if k = ''length'' then JNum (int (length xs)) else JUndefined)"
| "get_prop (JStr s) k =
     Inr (case index_of_key k (length s) of
            Some i \<Rightarrow> JStr [s ! i]
          | None \<Rightarrow> if k = ''length'' then JNum (int (length s)) else JUndefined)"
| "get_prop (JBool b) k = Inr JUndefined"
| "get_prop (JNum n) k = Inr JUndefined"

text \<open>\<open>{ ...v }\<close>: the own enumerable properties of \<open>v\<close>.\<close>

fun spread :: "jv \<Rightarrow> (string \<times> jv) list" where
  "spread (JObj kvs) = kvs"
| "spread (JArr xs) = map (\<lambda>(i, v). (string_of_nat i, v)) (enumerate 0 xs)"
| "spread (JStr s) = map (\<lambda>(i, c). (string_of_nat i, JStr [c])) (enumerate 0 s)"
| "spread _ = []"

section \<open>\<open>deepMerge\<close>\<close>

text \<open>
  \<open>target[key]\<close> in \<open>deepMerge\<close>.  A key the target does not have as an own property may
  name a member it inherits: the methods of \<open>Object.prototype\<close> (and, for an array, of
  \<open>Array.prototype\<close>), which are functions.  Which keys do is the platform's, and a
  parameter here: \<open>inh v k\<close> says that \<open>v\<close> inherits a method named \<open>k\<close>.  The accessor
  \<open>__proto__\<close> is the one inherited member that is not a method; the model does not cover
  a lookup or an assignment that goes through it.
\<close>

type_synonym prototype_chain = "jv \<Rightarrow> string \<Rightarrow> bool"

datatype looked_up = Value jv | InheritedFunction

fun own_property :: "jv \<Rightarrow> string \<Rightarrow> jv option" where
  "own_property (JObj kvs) k = map_of kvs k"
| "own_property (JArr xs) k =
     (case index_of_key k (length xs) of
        Some i \<Rightarrow> Some (xs ! i)
      | None \<Rightarrow> if k = ''length'' then Some (JNum (int (length xs))) else None)"
| "own_property (JStr s) k =
     (case index_of_key k (length s) of
        Some i \<Rightarrow> Some (JStr [s ! i])
      | None \<Rightarrow> if k = ''length'' then Some (JNum (int (length s))) else None)"
| "own_property _ k = None"

definition lookup :: "prototype_chain \<Rightarrow> jv \<Rightarrow> string \<Rightarrow> js_error + looked_up" where
  "lookup inh v k =
     (if v = JNull \<or> v = JUndefined then Inl TypeError
      else (case own_property v k of
              Some x \<Rightarrow> Inr (Value x)
            | None \<Rightarrow>
                if k = ''__proto__'' then Inl Unsupported
                else if inh v k then Inr InheritedFunction
                else Inr (Value JUndefined)))"

text \<open>
  \<open>result[key] = x\<close>: replaces the value of a key the object has and adds a new key;
  for \<open>__proto__\<close> on an object without such an own property it would call the accessor.
\<close>

definition assign :: "string \<Rightarrow> jv \<Rightarrow> (string \<times> jv) list \<Rightarrow> js_error + (string \<times> jv) list" where
  "assign key x res =
     (if key = ''__proto__'' \<and> map_of res key = None then Inl Unsupported
      else Inr (AList.update key x res))"

text \<open>
  \<open>merge_keys\<close> is the \<open>for (const key in source)\<close> loop: its arguments are the target,
  the properties of \<open>source\<close>, those still to visit, and \<open>result\<close>.  Each round first calls
  \<open>source.hasOwnProperty(key)\<close>: when \<open>source\<close> has an own property of that name, its
  value is called, and no value of \<open>jv\<close> is a function.  A target that is an inherited
  method is not an object, so merging into it returns the source.
\<close>

fun deepMerge :: "prototype_chain \<Rightarrow> jv \<Rightarrow> jv \<Rightarrow> js_error + jv"
  and merge_keys ::
    "prototype_chain \<Rightarrow> jv \<Rightarrow> (string \<times> jv) list \<Rightarrow> (string \<times> jv) list \<Rightarrow>
       (string \<times> jv) list \<Rightarrow> js_error + (string \<times> jv) list"
where
  "deepMerge inh target source =
     (if source = JNull \<or> source = JUndefined then Inr target
      else if \<not> typeof_object target \<or> \<not> typeof_object source then Inr source
      else (case source of
              JObj entries \<Rightarrow>
                map_sum id JObj (merge_keys inh target entries entries (spread target))
            | _ \<Rightarrow> Inr source))"
| "merge_keys inh target src [] res = Inr res"
| "merge_keys inh target src ((key, v) # rest) res =
     (if map_of src ''hasOwnProperty'' \<noteq> None then Inl TypeError
      else if v = JNull \<or> v = JUndefined then merge_keys inh target src rest res
      else (case v of
              JObj _ \<Rightarrow>
                (case lookup inh target key of
                   Inl e \<Rightarrow> Inl e
                 | Inr InheritedFunction \<Rightarrow>
                     (case assign key v res of
                        Inl e \<Rightarrow> Inl e
                      | Inr res' \<Rightarrow> merge_keys inh target src rest res')
                 | Inr (Value tv) \<Rightarrow>
                     (case deepMerge inh (if truthy tv then tv else JObj []) v of
                        Inl e \<Rightarrow> Inl e
                      | Inr merged \<Rightarrow>
                          (case assign key merged res of
                             Inl e \<Rightarrow> Inl e
                           | Inr res' \<Rightarrow> merge_keys inh target src rest res')))
            | _ \<Rightarrow>
                (case assign key v res of
                   Inl e \<Rightarrow> Inl e
                 | Inr res' \<Rightarrow> merge_keys inh target src rest res')))"

text \<open>
  An override the merge can process: neither it nor an object nested in it under object
  values has an own key \<open>hasOwnProperty\<close>, or a key \<open>__proto__\<close> with a value other than
  \<open>null\<close> and \<open>undefined\<close>.
\<close>

fun plain_keys :: "jv \<Rightarrow> bool"
  and plain_entries :: "(string \<times> jv) list \<Rightarrow> bool"
where
  "plain_keys (JObj kvs) = plain_entries kvs"
| "plain_keys JNull = True"
| "plain_keys JUndefined = True"
| "plain_keys (JBool b) = True"
| "plain_keys (JNum n) = True"
| "plain_keys (JStr s) = True"
| "plain_keys (JArr xs) = True"
| "plain_entries [] = True"
| "plain_entries ((k, v) # rest) =
     (k \<noteq> ''hasOwnProperty'' \<and>
      (k = ''__proto__'' \<longrightarrow> v = JNull \<or> v = JUndefined) \<and>
      plain_keys v \<and> plain_entries rest)"



section \<open>Breadcrumb extraction (\<open>RobustCrawler.extractBreadcrumbs\<close>)\<close>

text \<open>
  The function reads the HTML through regular expressions and \<open>JSON.parse\<close>, which are the
  platform's.  A document is given here by what those calls return: for every match of
  the JSON-LD script pattern, in document order, the parsed content (\<open>None\<close> when
  \<open>JSON.parse\<close> throws); and for each of the four fallback selectors \<open>.breadcrumb\<close>,
  \<open>.breadcrumbs\<close>, \<open>[aria-label="breadcrumb"]\<close>, \<open>.nav-breadcrumb\<close>, in this order, \<open>None\<close>
  when its pattern does not match and otherwise the texts that \<open>/>([^<]+)</g\<close> captures
  in the matched element.
\<close>

record breadcrumb_doc =
  jsonld_scripts :: "jv option list"
  selector_matches :: "string list option list"

text \<open>\<open>for (const item of v)\<close>: arrays and strings are iterable, other values are not.\<close>

fun iterate :: "jv \<Rightarrow> js_error + jv list" where
  "iterate (JArr xs) = Inr xs"
| "iterate (JStr s) = Inr (map (\<lambda>c. JStr [c]) s)"
| "iterate _ = Inl TypeError"

text \<open>
  The loop over \<open>itemListElement\<close>.  The array \<open>breadcrumbs\<close> is shared by the whole
  function, so what has been pushed stays when \<open>item.name\<close> throws: the loop returns the
  array together with the outcome.
\<close>

fun push_names :: "jv list \<Rightarrow> jv list \<Rightarrow> (js_error + unit) \<times> jv list" where
  "push_names bs [] = (Inr (), bs)"
| "push_names bs (item # items) =
     (case get_prop item ''name'' of
        Inl e \<Rightarrow> (Inl e, bs)
      | Inr n \<Rightarrow> push_names (if truthy n then bs @ [n] else bs) items)"

text \<open>
  The body of the loop over the JSON-LD scripts, inside its \<open>try\<close>: the result says
  whether the function returns here, and gives the array.  Every exception is caught and
  the loop goes on.
\<close>

definition script_step :: "jv list \<Rightarrow> jv option \<Rightarrow> bool \<times> jv list" where
  "script_step bs parsed =
     (case parsed of
        None \<Rightarrow> (False, bs)
      | Some d \<Rightarrow>
          (case get_prop d ''@type'' of
             Inl e \<Rightarrow> (False, bs)
           | Inr ty \<Rightarrow>
               if ty \<noteq> JStr ''BreadcrumbList'' then (False, bs)
               else
                 (case get_prop d ''itemListElement'' of
                    Inl e \<Rightarrow> (False, bs)
                  | Inr itemListElement \<Rightarrow>
                      if \<not> truthy itemListElement then (False, bs)
                      else
                        (case iterate itemListElement of
                           Inl e \<Rightarrow> (False, bs)
                         | Inr items \<Rightarrow>
                             (case push_names bs items of
                                (Inl e, bs') \<Rightarrow> (False, bs')
                              | (Inr u, bs') \<Rightarrow> (length bs' > 0, bs'))))))"

fun jsonld_loop :: "jv list \<Rightarrow> jv option list \<Rightarrow> bool \<times> jv list" where
  "jsonld_loop bs [] = (False, bs)"
| "jsonld_loop bs (m # ms) =
     (case script_step bs m of
        (True, bs') \<Rightarrow> (True, bs')
      | (False, bs') \<Rightarrow> jsonld_loop bs' ms)"

definition is_space :: "char \<Rightarrow> bool" where
  "is_space c = (c \<in> set [CHR 0x09, CHR 0x0A, CHR 0x0B, CHR 0x0C, CHR 0x0D, CHR '' ''])"

definition trim :: "string \<Rightarrow> string" where
  "trim s = rev (dropWhile is_space (rev (dropWhile is_space s)))"

text \<open>\<open>text && !text.match(/^[>\s]*$/)\<close>\<close>

definition keep_text :: "string \<Rightarrow> bool" where
  "keep_text t = (t \<noteq> [] \<and> \<not> list_all (\<lambda>c. c = CHR ''>'' \<or> is_space c) t)"

fun selector_loop :: "jv list \<Rightarrow> string list option list \<Rightarrow> jv list" where
  "selector_loop bs [] = bs"
| "selector_loop bs (None # ms) = selector_loop bs ms"
| "selector_loop bs (Some texts # ms) =
     (let bs' = bs @ map JStr (filter keep_text (map trim texts))
      in if length bs' > 0 then bs' else selector_loop bs' ms)"

definition extractBreadcrumbs :: "breadcrumb_doc \<Rightarrow> jv list" where
  "extractBreadcrumbs doc =
     (case jsonld_loop [] (jsonld_scripts doc) of
        (True, bs) \<Rightarrow> bs
      | (False, bs) \<Rightarrow> selector_loop bs (selector_matches doc))"

text \<open>
  The names a \<open>BreadcrumbList\<close> yields, in the specification's words: the truthy \<open>name\<close>
  of each element of \<open>itemListElement\<close> that has one, in order.
\<close>

definition spec_names :: "jv \<Rightarrow> jv list" where
  "spec_names d =
     (case get_prop d ''itemListElement'' of
        Inr (JArr items) \<Rightarrow>
          concat (map (\<lambda>item. case get_prop item ''name'' of
                                Inr n \<Rightarrow> if truthy n then [n] else []
                              | Inl e \<Rightarrow> []) items)
      | _ \<Rightarrow> [])"

text \<open>
  The document
  \<open><script type="application/ld+json">{"@type":"BreadcrumbList","itemListElement":[{"name":"A"},null]}</script>\<close>
  \<open><ul class="breadcrumb"><li>B<br></li></ul>\<close>.
\<close>

definition null_item_list :: jv where
  "null_item_list =
     JObj [(''@type'', JStr ''BreadcrumbList''),
           (''itemListElement'', JArr [JObj [(''name'', JStr ''A'')], JNull])]"

definition null_item_doc :: breadcrumb_doc where
  "null_item_doc =
     \<lparr>jsonld_scripts = [Some null_item_list],
      selector_matches = [Some [''B''], None, None, None]\<rparr>"

text \<open>The truthy names of a list of items, in order.\<close>

definition item_names :: "jv list \<Rightarrow> jv list" where
  "item_names items =
     concat (map (\<lambda>item. case get_prop item ''name'' of
                           Inr n \<Rightarrow> if truthy n then [n] else []
                         | Inl e \<Rightarrow> []) items)"

section \<open>Properties\<close>

subsection \<open>Retrying a failed job\<close>

lemma filter_single_eq:
  assumes "filter P xs = [j]" and "r \<in> set xs" and "P r"
  shows "r = j"
proof -
  from assms(2,3) have "r \<in> set (filter P xs)" by simp
  with assms(1) show ?thesis by simp
qed

text \<open>
  Claim C9.  For the job row \<open>j\<close> that the id names: when \<open>retry_count \<ge> max_retries\<close> the
  retry is rejected with an error and the table is unchanged (whatever the database does);
  otherwise, with a working database, a row whose status is not \<open>failed\<close> is left as it
  is, and a \<open>failed\<close> row is re-queued: status \<open>queued\<close>, retry count incremented,
  progress 0, and error message, start time and completion time cleared.  No other row
  changes.
\<close>

theorem retryFailedJob_spec:
  assumes one: "filter (\<lambda>r. jid r = i) db = [j]"
  shows "(max_retries j \<le> retry_count j \<longrightarrow> retryFailedJob uf i db = (Inl MaxRetriesExceeded, db)) \<and>
         (retry_count j < max_retries j \<and> status j \<noteq> Failed \<longrightarrow>
            retryFailedJob False i db = (Inr (), db)) \<and>
         (retry_count j < max_retries j \<and> status j = Failed \<longrightarrow>
            retryFailedJob False i db =
              (Inr (),
               map (\<lambda>r. if jid r = i
                          then j\<lparr>status := Queued, retry_count := retry_count j + 1, progress := 0,
                                 error_message := None, started_at := None, completed_at := None\<rparr>
                          else r) db))"
proof -
  have same: "\<And>r. r \<in> set db \<Longrightarrow> jid r = i \<Longrightarrow> r = j"
    using filter_single_eq [OF one] by blast
  have a: "max_retries j \<le> retry_count j \<Longrightarrow> retryFailedJob uf i db = (Inl MaxRetriesExceeded, db)"
    by (simp add: retryFailedJob_def one)
  have b: "retry_count j < max_retries j \<Longrightarrow> status j \<noteq> Failed \<Longrightarrow>
           retryFailedJob False i db = (Inr (), db)"
  proof -
    assume lt: "retry_count j < max_retries j" and nf: "status j \<noteq> Failed"
    have "map (\<lambda>r. if jid r = i \<and> status r = Failed then retry_row (retry_count j) r else r) db = db"
      using same nf by (intro map_idI) auto
    with lt show ?thesis by (simp add: retryFailedJob_def one update_where_def)
  qed
  have c: "retry_count j < max_retries j \<Longrightarrow> status j = Failed \<Longrightarrow>
           retryFailedJob False i db =
              (Inr (),
               map (\<lambda>r. if jid r = i
                          then j\<lparr>status := Queued, retry_count := retry_count j + 1, progress := 0,
                                 error_message := None, started_at := None, completed_at := None\<rparr>
                          else r) db)"
  proof -
    assume lt: "retry_count j < max_retries j" and f: "status j = Failed"
    have "map (\<lambda>r. if jid r = i \<and> status r = Failed then retry_row (retry_count j) r else r) db =
          map (\<lambda>r. if jid r = i
                          then j\<lparr>status := Queued, retry_count := retry_count j + 1, progress := 0,
                                 error_message := None, started_at := None, completed_at := None\<rparr>
                          else r) db"
      using same f by (intro map_cong) (auto simp: retry_row_def)
    with lt show ?thesis by (simp add: retryFailedJob_def one update_where_def)
  qed
  from a b c show ?thesis by blast
qed

theorem retryFailedJob_spec_witness:
  "filter (\<lambda>r. jid r = 1) [failed_job, new_job 2 7] = [failed_job] \<and>
   retry_count failed_job < max_retries failed_job \<and> status failed_job = Failed \<and>
   retryFailedJob False 1 [failed_job, new_job 2 7] =
     (Inr (), [(new_job 1 7)\<lparr>retry_count := 2\<rparr>, new_job 2 7])"
proof -
  have one: "filter (\<lambda>r. jid r = 1) [failed_job, new_job 2 7] = [failed_job]"
    by (simp add: failed_job_def new_job_def)
  have lt: "retry_count failed_job < max_retries failed_job \<and> status failed_job = Failed"
    by (simp add: failed_job_def new_job_def)
  from retryFailedJob_spec [OF one, of False] lt one show ?thesis
    by (simp add: failed_job_def new_job_def)
qed

subsection \<open>The reaper\<close>


lemma distinct_key_eq:
  assumes "distinct (map f xs)" and "x \<in> set xs" and "y \<in> set xs" and "f x = f y"
  shows "x = y"
  using assms by (meson distinct_map inj_on_def)

lemma jid_timeout_row [simp]: "jid (timeout_row t r) = jid r"
  by (simp add: timeout_row_def)

lemma map_jid_update_where_timeout [simp]:
  "map jid (update_where P (timeout_row t) xs) = map jid xs"
  by (simp add: update_where_def comp_def)

lemma reset_stuck_jobs_jobs:
  assumes "\<not> fetch_stuck_fails f" and "\<not> update_stuck_fails f"
  shows "jobs (fst (reset_stuck_jobs f t1 t2 (db, res))) =
         update_where (\<lambda>r. jid r \<in> jid ` set (filter (is_stuck t1) (jobs db))) (timeout_row t2) (jobs db)"
proof (cases "filter (is_stuck t1) (jobs db) = []")
  case True
  then show ?thesis using assms by (simp add: reset_stuck_jobs_def update_where_def)
next
  case False
  then show ?thesis using assms by (simp add: reset_stuck_jobs_def Let_def)
qed

lemma reset_stuck_jobs_scans [simp]:
  "scans (fst (reset_stuck_jobs f t1 t2 (db, res))) = scans db"
  by (simp add: reset_stuck_jobs_def Let_def)

lemma delete_old_jobs_scans [simp]:
  "scans (fst (delete_old_jobs f t3 st)) = scans (fst st)"
  by (cases st) (simp add: delete_old_jobs_def Let_def)

lemma refresh_website_stats_fst [simp]:
  "fst (refresh_website_stats f st) = fst st"
  by (cases st) (simp add: refresh_website_stats_def)

lemma delete_old_jobs_subset:
  "set (jobs (fst (delete_old_jobs f t3 st))) \<subseteq> set (jobs (fst st))"
  by (cases st) (auto simp: delete_old_jobs_def Let_def)

lemma delete_old_jobs_keeps:
  assumes "distinct (map jid (jobs (fst st)))" and "r \<in> set (jobs (fst st))" and "\<not> is_old t3 r"
  shows "r \<in> set (jobs (fst (delete_old_jobs f t3 st)))"
proof -
  obtain db res where st: "st = (db, res)" by (cases st)
  have "jid r \<notin> jid ` set (filter (is_old t3) (jobs db))"
  proof
    assume "jid r \<in> jid ` set (filter (is_old t3) (jobs db))"
    then obtain r' where r': "r' \<in> set (jobs db)" "is_old t3 r'" "jid r = jid r'" by auto
    with assms st have "r = r'" using distinct_key_eq [of jid "jobs db" r r'] by simp
    with r' assms(3) show False by simp
  qed
  with assms(2) st show ?thesis by (simp add: delete_old_jobs_def Let_def)
qed

text \<open>
  Claim C7, as amended.  With unique job ids and the two database calls of the first step
  succeeding, one cycle of \<open>maintainJobs\<close> turns every job that is \<open>running\<close> with a start
  time more than two hours before \<open>t1\<close> into a \<open>failed\<close> row with completion time \<open>t2\<close> and
  the message \<open>Job timed out after 2 hours\<close>; nothing else in the row changes (the retry
  count stays, the job is not re-queued), the row survives the clean-up of the same cycle
  (which only deletes rows completed more than thirty days before \<open>t3\<close>), and the scans
  table is left exactly as it was.
\<close>

theorem reaper_fails_stuck_job:
  assumes ids: "distinct (map jid (jobs db))"
    and j: "j \<in> set (jobs db)" and run: "status j = Running"
    and old: "started_at j = Some s" "s < t1 - two_hours"
    and ok: "\<not> fetch_stuck_fails f" "\<not> update_stuck_fails f"
    and clock: "t3 - thirty_days \<le> t2"
  shows "(\<exists>r \<in> set (jobs (fst (maintainJobs f t1 t2 t3 db))). jid r = jid j) \<and>
         (\<forall>r \<in> set (jobs (fst (maintainJobs f t1 t2 t3 db))). jid r = jid j \<longrightarrow>
            r = j\<lparr>status := Failed, completed_at := Some t2,
                   error_message := Some ''Job timed out after 2 hours''\<rparr>) \<and>
         scans (fst (maintainJobs f t1 t2 t3 db)) = scans db"
proof -
  let ?res = "\<lparr>stuckJobsReset = 0, oldJobsDeleted = 0, errors = []\<rparr>"
  let ?st1 = "reset_stuck_jobs f t1 t2 (db, ?res)"
  let ?ids = "jid ` set (filter (is_stuck t1) (jobs db))"
  have jobs1: "jobs (fst ?st1) = update_where (\<lambda>r. jid r \<in> ?ids) (timeout_row t2) (jobs db)"
    using ok by (rule reset_stuck_jobs_jobs)
  have stuck: "is_stuck t1 j" using run old by (simp add: is_stuck_def)
  with j have jin: "jid j \<in> ?ids" by auto
  have ids1: "distinct (map jid (jobs (fst ?st1)))" using ids by (simp add: jobs1)
  have mem1: "timeout_row t2 j \<in> set (jobs (fst ?st1))"
    using j jin by (force simp: jobs1 update_where_def)
  have "\<not> is_old t3 (timeout_row t2 j)"
    using clock by (simp add: is_old_def timeout_row_def)
  with ids1 mem1 have mem2: "timeout_row t2 j \<in> set (jobs (fst (delete_old_jobs f t3 ?st1)))"
    by (rule delete_old_jobs_keeps)
  have final: "fst (maintainJobs f t1 t2 t3 db) = fst (delete_old_jobs f t3 ?st1)"
    by (simp add: maintainJobs_def)
  have mem3: "timeout_row t2 j \<in> set (jobs (fst (maintainJobs f t1 t2 t3 db)))"
    using mem2 by (simp only: final)
  have a: "\<exists>r \<in> set (jobs (fst (maintainJobs f t1 t2 t3 db))). jid r = jid j"
    using mem3 by (intro bexI [of _ "timeout_row t2 j"]) simp_all
  have b: "r = timeout_row t2 j"
    if "r \<in> set (jobs (fst (maintainJobs f t1 t2 t3 db)))" and "jid r = jid j" for r
  proof -
    from that(1) final have "r \<in> set (jobs (fst ?st1))"
      using delete_old_jobs_subset [of f t3 ?st1] by auto
    with mem1 ids1 that(2) show ?thesis
      using distinct_key_eq [of jid "jobs (fst ?st1)" r "timeout_row t2 j"] by simp
  qed
  have c: "scans (fst (maintainJobs f t1 t2 t3 db)) = scans db"
    by (simp add: maintainJobs_def)
  from a b c show ?thesis by (auto simp: timeout_row_def)
qed

theorem reaper_fails_stuck_job_witness:
  "distinct (map jid (jobs stuck_db)) \<and> stuck_job \<in> set (jobs stuck_db) \<and>
   status stuck_job = Running \<and> started_at stuck_job = Some 0 \<and>
   (0::int) < 10800000 - two_hours \<and>
   \<not> fetch_stuck_fails no_faults \<and> \<not> update_stuck_fails no_faults \<and>
   (10800000::int) - thirty_days \<le> 10800000 \<and>
   (\<exists>r \<in> set (jobs (fst (maintainJobs no_faults 10800000 10800000 10800000 stuck_db))).
      jid r = jid stuck_job) \<and>
   scans (fst (maintainJobs no_faults 10800000 10800000 10800000 stuck_db)) = [stuck_scan]"
proof -
  have h1: "distinct (map jid (jobs stuck_db))" and h2: "stuck_job \<in> set (jobs stuck_db)"
    and h3: "status stuck_job = Running" and h4: "started_at stuck_job = Some 0"
    by (simp_all add: stuck_db_def stuck_job_def new_job_def)
  have h5: "(0::int) < 10800000 - two_hours" by (simp add: two_hours_def)
  have h6: "\<not> fetch_stuck_fails no_faults" and h7: "\<not> update_stuck_fails no_faults"
    by (simp_all add: no_faults_def)
  have h8: "(10800000::int) - thirty_days \<le> 10800000" by (simp add: thirty_days_def)
  have sc: "scans stuck_db = [stuck_scan]" by (simp add: stuck_db_def)
  from reaper_fails_stuck_job [OF h1 h2 h3 h4 h5 h6 h7 h8] h1 h2 h3 h4 h5 h6 h7 h8 sc
  show ?thesis by simp
qed

text \<open>
  The claim as stated fails: after a reaper cycle that fails the stuck job, the scan row of
  the same website is still \<open>running\<close>.
\<close>

theorem reaper_leaves_scan_counterexample:
  "is_stuck 10800000 stuck_job \<and>
   scan_website_id stuck_scan = website_id stuck_job \<and>
   jobs (fst (maintainJobs no_faults 10800000 10800000 10800000 stuck_db)) =
     [stuck_job\<lparr>status := Failed, completed_at := Some 10800000,
                 error_message := Some ''Job timed out after 2 hours''\<rparr>, new_job 2 7] \<and>
   scans (fst (maintainJobs no_faults 10800000 10800000 10800000 stuck_db)) = [stuck_scan] \<and>
   scan_status stuck_scan = ScanRunning"
  by (simp add: maintainJobs_def reset_stuck_jobs_def delete_old_jobs_def
      refresh_website_stats_def no_faults_def stuck_db_def stuck_job_def stuck_scan_def
      new_job_def is_stuck_def is_old_def two_hours_def thirty_days_def timeout_row_def
      update_where_def Let_def)

subsection \<open>The job state machine\<close>










text \<open>
  The functions modelled above run their \<open>SELECT\<close> and their update on one state of the
  table; each is the operation with the value read from that state.
\<close>

lemma updateJobStatus_row_as_update:
  "updateJobStatus_row now st p res err j = status_update_row now st p (started_at j) res err j"
  by (simp add: updateJobStatus_row_def status_update_row_def)

lemma updateJobStatus_as_op:
  assumes "filter (\<lambda>r. jid r = i) db = [j]"
  shows "updateJobStatus now i st p res err db = apply_op now (OpStatus i st p (started_at j) res err) db"
proof -
  have "\<And>r. r \<in> set db \<Longrightarrow> jid r = i \<Longrightarrow> r = j"
    using filter_single_eq [OF assms] by blast
  then have "map (\<lambda>r. if jid r = i then updateJobStatus_row now st p res err r else r) db =
             map (\<lambda>r. if jid r = i then status_update_row now st p (started_at j) res err r else r) db"
    by (intro map_cong) (auto simp: updateJobStatus_row_as_update)
  then show ?thesis by (simp add: updateJobStatus_def update_where_def)
qed

lemma retryFailedJob_as_op:
  assumes "filter (\<lambda>r. jid r = i) db = [j]" and "retry_count j < max_retries j"
  shows "retryFailedJob False i db = (Inr (), apply_op now (OpRetry i (retry_count j)) db)"
  using assms by (simp add: retryFailedJob_def)

lemma reset_stuck_jobs_as_op:
  assumes "\<not> fetch_stuck_fails f" and "\<not> update_stuck_fails f"
  shows "jobs (fst (reset_stuck_jobs f t1 t2 (db, res))) =
         apply_op t2 (OpReap (map jid (filter (is_stuck t1) (jobs db)))) (jobs db)"
  using assms by (simp add: reset_stuck_jobs_jobs)




subsection \<open>The inclusion predicate\<close>

lemma exclude_loop_spec:
  assumes "\<forall>p\<in>set E. \<exists>b. matchesPattern rt url p = Inr b"
  shows "exclude_loop rt url E = Inr (\<exists>p\<in>set E. matchesPattern rt url p = Inr True)"
  using assms by (induction E) auto

lemma include_loop_spec:
  assumes "\<forall>pc\<in>set I. enabled pc \<longrightarrow> (\<exists>b. matchesPattern rt url (pattern pc) = Inr b)"
  shows "include_loop rt url I =
         Inr (\<exists>pc\<in>set I. enabled pc \<and> matchesPattern rt url (pattern pc) = Inr True)"
  using assms by (induction I) auto

text \<open>
  Claim C3, as amended.  Whatever the regular-expression engine is: for every URL,
  include list \<open>I\<close> and exclude list \<open>E\<close> such that the matcher returns a verdict on every
  exclude pattern and every enabled include pattern (the constructor does not throw), the
  predicate returns false if some pattern of \<open>E\<close> matches, otherwise true if \<open>I\<close> is
  empty, otherwise true iff some enabled pattern of \<open>I\<close> matches; and two include
  lists with the same patterns give the same result.
\<close>

theorem matchesPatterns_spec:
  assumes ex: "\<forall>p\<in>set E. \<exists>b. matchesPattern rt url p = Inr b"
    and inc: "\<forall>pc\<in>set I. enabled pc \<longrightarrow> (\<exists>b. matchesPattern rt url (pattern pc) = Inr b)"
  shows "matchesPatterns rt url I E =
           Inr (if \<exists>p\<in>set E. matchesPattern rt url p = Inr True then False
                else I = [] \<or> (\<exists>pc\<in>set I. enabled pc \<and> matchesPattern rt url (pattern pc) = Inr True)) \<and>
         (set I' = set I \<longrightarrow> matchesPatterns rt url I' E = matchesPatterns rt url I E)"
proof -
  have main: "matchesPatterns rt url J E =
           Inr (if \<exists>p\<in>set E. matchesPattern rt url p = Inr True then False
                else J = [] \<or> (\<exists>pc\<in>set J. enabled pc \<and> matchesPattern rt url (pattern pc) = Inr True))"
    if "set J = set I" for J
  proof -
    from inc that have "\<forall>pc\<in>set J. enabled pc \<longrightarrow> (\<exists>b. matchesPattern rt url (pattern pc) = Inr b)"
      by simp
    then show ?thesis
      by (simp add: matchesPatterns_def exclude_loop_spec [OF ex] include_loop_spec)
  qed
  have "matchesPatterns rt url I' E = matchesPatterns rt url I E" if "set I' = set I"
  proof -
    from that have "(I' = []) = (I = [])" by (metis set_empty)
    with that show ?thesis by (simp add: main)
  qed
  with main [of I] show ?thesis by simp
qed

theorem matchesPatterns_spec_witness:
  "matchesPattern js_regexp_test ''https://a.example/products/a'' ''/products/private/*'' = Inr False \<and>
   matchesPattern js_regexp_test ''https://a.example/products/a'' ''/products/*'' = Inr True \<and>
   matchesPatterns js_regexp_test ''https://a.example/products/a''
     [\<lparr>pattern = ''/products/*'', enabled = True\<rparr>] [''/products/private/*''] = Inr True"
proof -
  let ?url = "''https://a.example/products/a''"
  have e: "matchesPattern js_regexp_test ?url ''/products/private/*'' = Inr False"
    by (simp add: matchesPattern_def js_regexp_test_def glob_to_regex_def replace_all_def
        is_syntax_char_def line_terminator_def)
  have i: "matchesPattern js_regexp_test ?url ''/products/*'' = Inr True"
    by (simp add: matchesPattern_def js_regexp_test_def glob_to_regex_def replace_all_def
        is_syntax_char_def line_terminator_def)
  have h1: "\<forall>p\<in>set [''/products/private/*'']. \<exists>b. matchesPattern js_regexp_test ?url p = Inr b"
    using e by auto
  have h2: "\<forall>pc\<in>set [\<lparr>pattern = ''/products/*'', enabled = True\<rparr>].
      enabled pc \<longrightarrow> (\<exists>b. matchesPattern js_regexp_test ?url (pattern pc) = Inr b)"
    using i by auto
  from matchesPatterns_spec [OF h1 h2] e i show ?thesis by simp
qed

text \<open>
  The claim as stated fails on a pattern whose translation is not a regular expression:
  for the exclude pattern \<open>(\<close> the constructor throws (an unterminated group), and the
  predicate returns neither true nor false.
\<close>

theorem matchesPatterns_counterexample:
  "matchesPatterns js_regexp_test ''https://a.example/'' [] [''(''] = Inl SyntaxError"
  by (simp add: matchesPatterns_def matchesPattern_def js_regexp_test_def glob_to_regex_def
      replace_all_def is_syntax_char_def reject_def)

subsection \<open>The translation of glob patterns\<close>

lemma replace_all_append:
  "replace_all c r (xs @ ys) = replace_all c r xs @ replace_all c r ys"
  by (simp add: replace_all_def)

lemma glob_to_regex_Cons: "glob_to_regex (c # p) = tr_char c @ glob_to_regex p"
  by (simp add: glob_to_regex_def replace_all_def tr_char_def)

lemma glob_to_regex_concat: "glob_to_regex p = concat (map tr_char p)"
  by (induction p) (simp_all add: glob_to_regex_Cons, simp add: glob_to_regex_def replace_all_def)

lemma glob_to_regex_no_leading_star: "glob_to_regex p \<noteq> CHR ''*'' # ds"
  by (cases p) (auto simp: glob_to_regex_Cons tr_char_def glob_to_regex_def replace_all_def)

lemma regex_parse_dot:
  assumes "cs \<noteq> CHR ''*'' # tl cs"
  shows "regex_parse (CHR ''.'' # cs) = map_sum id (Cons AnyChar) (regex_parse cs)"
proof (cases cs)
  case Nil
  then show ?thesis by simp
next
  case (Cons d ds)
  with assms have "d \<noteq> CHR ''*''" by auto
  with Cons show ?thesis by simp
qed

lemma regex_parse_dot_star:
  "regex_parse (CHR ''.'' # CHR ''*'' # cs) = map_sum id (Cons AnyStar) (regex_parse cs)"
  by simp

lemma regex_parse_lit:
  assumes "\<not> is_syntax_char c"
  shows "regex_parse (c # cs) = map_sum id (Cons (Lit c)) (regex_parse cs)"
proof -
  from assms have "c \<noteq> CHR ''.''" by (auto simp: is_syntax_char_def)
  with assms show ?thesis by (cases cs) simp_all
qed

lemma regex_parse_glob:
  assumes "plain_glob p"
  shows "regex_parse (glob_to_regex p) = Inr (map item_of p)"
  using assms
proof (induction p)
  case Nil
  show ?case by (simp add: glob_to_regex_def replace_all_def)
next
  case (Cons c p)
  then have ih: "regex_parse (glob_to_regex p) = Inr (map item_of p)"
    and c: "c = CHR ''.'' \<or> c = CHR ''*'' \<or> c = CHR ''?'' \<or> \<not> is_syntax_char c"
    by (simp_all add: plain_glob_def)
  have nostar: "glob_to_regex p \<noteq> CHR ''*'' # tl (glob_to_regex p)"
    by (rule glob_to_regex_no_leading_star)
  consider (star) "c = CHR ''*''" | (any) "c = CHR ''?'' \<or> c = CHR ''.''"
    | (lit) "c \<noteq> CHR ''*''" "c \<noteq> CHR ''?''" "c \<noteq> CHR ''.''" "\<not> is_syntax_char c"
    using c by blast
  then show ?case
  proof cases
    case star
    then show ?thesis
      by (simp add: glob_to_regex_Cons tr_char_def ih item_of_def)
  next
    case any
    then have "glob_to_regex (c # p) = CHR ''.'' # glob_to_regex p"
      by (auto simp: glob_to_regex_Cons tr_char_def)
    with any show ?thesis
      by (auto simp: regex_parse_dot [OF nostar] ih item_of_def)
  next
    case lit
    then have "glob_to_regex (c # p) = c # glob_to_regex p"
      by (simp add: glob_to_regex_Cons tr_char_def)
    with lit show ?thesis
      by (simp add: regex_parse_lit ih item_of_def)
  qed
qed

lemma match_here_loose_fits:
  "match_here (map item_of p) s = (\<exists>mid post. s = mid @ post \<and> loose_fits p mid)"
proof (induction p s rule: loose_fits.induct)
  case (1 s)
  show ?case by simp
next
  case (2 c p)
  then show ?case by (auto simp: item_of_def)
next
  case (3 c p x xs)
  show ?case
  proof (cases "c = CHR ''*''")
    case True
    with 3 have ih1: "match_here (map item_of p) (x # xs) =
        (\<exists>mid post. x # xs = mid @ post \<and> loose_fits p mid)"
      and ih2: "\<not> line_terminator x \<Longrightarrow> match_here (map item_of (c # p)) xs =
        (\<exists>mid post. xs = mid @ post \<and> loose_fits (c # p) mid)"
      by simp_all
    have "match_here (map item_of (c # p)) (x # xs) =
        (match_here (map item_of p) (x # xs) \<or>
         (\<not> line_terminator x \<and> match_here (map item_of (c # p)) xs))"
      using True by (simp add: item_of_def)
    also have "\<dots> = ((\<exists>mid post. x # xs = mid @ post \<and> loose_fits p mid) \<or>
         (\<not> line_terminator x \<and> (\<exists>mid post. xs = mid @ post \<and> loose_fits (c # p) mid)))"
      using ih1 ih2 by blast
    also have "\<dots> = (\<exists>mid post. x # xs = mid @ post \<and> loose_fits (c # p) mid)"
      (is "?L = ?R")
    proof
      assume ?L
      then show ?R
      proof
        assume "\<exists>mid post. x # xs = mid @ post \<and> loose_fits p mid"
        then obtain mid post where m: "x # xs = mid @ post" "loose_fits p mid" by blast
        show ?R
        proof (cases mid)
          case Nil
          with m True have "loose_fits (c # p) []" by simp
          then show ?thesis by (intro exI [of _ "[]"] exI [of _ "x # xs"]) simp
        next
          case (Cons y ys)
          with m True have "loose_fits (c # p) mid" by simp
          with m show ?thesis by blast
        qed
      next
        assume "\<not> line_terminator x \<and> (\<exists>mid post. xs = mid @ post \<and> loose_fits (c # p) mid)"
        then obtain mid post where m: "\<not> line_terminator x" "xs = mid @ post" "loose_fits (c # p) mid"
          by blast
        with True have "loose_fits (c # p) (x # mid)" by simp
        with m show ?R by (intro exI [of _ "x # mid"] exI [of _ post]) simp
      qed
    next
      assume ?R
      then obtain mid post where m: "x # xs = mid @ post" "loose_fits (c # p) mid" by blast
      show ?L
      proof (cases mid)
        case Nil
        with m True have "loose_fits p []" by simp
        then show ?thesis by (intro disjI1 exI [of _ "[]"] exI [of _ "x # xs"]) simp
      next
        case (Cons y ys)
        with m have y: "y = x" "xs = ys @ post" by auto
        from m Cons y True have "loose_fits p (x # ys) \<or> (\<not> line_terminator x \<and> loose_fits (c # p) ys)"
          by simp
        then show ?thesis
        proof
          assume "loose_fits p (x # ys)"
          with y show ?thesis by (intro disjI1 exI [of _ "x # ys"] exI [of _ post]) simp
        next
          assume "\<not> line_terminator x \<and> loose_fits (c # p) ys"
          with y show ?thesis by blast
        qed
      qed
    qed
    finally show ?thesis .
  next
    case False
    with 3 have ih: "match_here (map item_of p) xs = (\<exists>mid post. xs = mid @ post \<and> loose_fits p mid)"
      by simp
    let ?ok = "if c = CHR ''?'' \<or> c = CHR ''.'' then \<not> line_terminator x else c = x"
    have "match_here (map item_of (c # p)) (x # xs) = (?ok \<and> match_here (map item_of p) xs)"
      using False by (auto simp: item_of_def)
    also have "\<dots> = (?ok \<and> (\<exists>mid post. xs = mid @ post \<and> loose_fits p mid))"
      by (simp only: ih)
    also have "\<dots> = (\<exists>mid post. x # xs = mid @ post \<and> loose_fits (c # p) mid)"
      (is "?L = ?R")
    proof
      assume ?L
      then obtain mid post where m: "?ok" "xs = mid @ post" "loose_fits p mid" by blast
      with False have "loose_fits (c # p) (x # mid)" by simp
      with m show ?R by (intro exI [of _ "x # mid"] exI [of _ post]) simp
    next
      assume ?R
      then obtain mid post where m: "x # xs = mid @ post" "loose_fits (c # p) mid" by blast
      with False obtain ys where ys: "mid = x # ys" "xs = ys @ post"
        by (cases mid) auto
      with m False have "?ok \<and> loose_fits p ys" by simp
      with ys show ?L by blast
    qed
    finally show ?thesis .
  qed
qed

lemma regex_search_substring:
  "regex_search r s = (\<exists>pre rest. s = pre @ rest \<and> match_here r rest)"
proof (induction s)
  case Nil
  show ?case by simp
next
  case (Cons x xs)
  show ?case (is "?L = ?R")
  proof
    assume ?L
    then have "match_here r (x # xs) \<or> regex_search r xs" by simp
    then show ?R
    proof
      assume "match_here r (x # xs)"
      then show ?R by (intro exI [of _ "[]"] exI [of _ "x # xs"]) simp
    next
      assume "regex_search r xs"
      with Cons obtain pre rest where "xs = pre @ rest" "match_here r rest" by blast
      then show ?R by (intro exI [of _ "x # pre"] exI [of _ rest]) simp
    qed
  next
    assume ?R
    then obtain pre rest where m: "x # xs = pre @ rest" "match_here r rest" by blast
    show ?L
    proof (cases pre)
      case Nil
      with m have "rest = x # xs" by simp
      with m show ?thesis by simp
    next
      case (Cons y ys)
      with m have "xs = ys @ rest" by simp
      with m Cons.IH have "regex_search r xs" by blast
      then show ?thesis by simp
    qed
  qed
qed

text \<open>
  Claim C6, as amended.  The translation replaces every \<open>*\<close> by \<open>.*\<close> and every \<open>?\<close> by
  \<open>.\<close> and changes nothing else: no character is escaped and no anchor is added.  For a
  pattern without other regular-expression syntax characters, the pattern matches a URL
  exactly when some substring of the URL fits it, where \<open>*\<close> stands for any run of
  characters, and \<open>?\<close> as well as a dot of the pattern for any single character (line
  terminators excepted).
\<close>

theorem matchesPattern_unanchored:
  assumes "plain_glob pat"
  shows "glob_to_regex pat = concat (map tr_char pat) \<and>
         matchesPattern js_regexp_test url pat =
           Inr (\<exists>pre mid post. url = pre @ mid @ post \<and> loose_fits pat mid)"
proof -
  have "matchesPattern js_regexp_test url pat = Inr (regex_search (map item_of pat) url)"
    by (simp add: matchesPattern_def js_regexp_test_def regex_parse_glob [OF assms])
  also have "regex_search (map item_of pat) url =
      (\<exists>pre mid post. url = pre @ mid @ post \<and> loose_fits pat mid)"
    by (simp add: regex_search_substring match_here_loose_fits) blast
  finally show ?thesis by (simp add: glob_to_regex_concat)
qed

theorem matchesPattern_unanchored_witness:
  "plain_glob ''/products/*'' \<and> glob_to_regex ''/products/*'' = ''/products/.*'' \<and>
   (\<exists>pre mid post. ''https://a.example/products/a'' = pre @ mid @ post \<and>
      loose_fits ''/products/*'' mid)"
proof -
  have h: "plain_glob ''/products/*''"
    by (simp add: plain_glob_def is_syntax_char_def)
  have ev: "matchesPattern js_regexp_test ''https://a.example/products/a'' ''/products/*'' = Inr True"
    by (simp add: matchesPattern_def js_regexp_test_def glob_to_regex_def replace_all_def
        is_syntax_char_def line_terminator_def)
  from matchesPattern_unanchored [OF h, of "''https://a.example/products/a''"] ev h
  show ?thesis by (simp add: tr_char_def)
qed

text \<open>
  The claim as stated fails: the pattern \<open>/products/*\<close> matches a URL of which it fits
  only a part, and the dot of \<open>*a.com*\<close> matches the \<open>x\<close> of \<open>axcom\<close>.
\<close>

theorem matchesPattern_counterexample:
  "matchesPattern js_regexp_test ''https://a.example/products/a'' ''/products/*'' = Inr True \<and>
   \<not> spec_glob_match ''/products/*'' ''https://a.example/products/a'' \<and>
   glob_to_regex ''*a.com*'' = ''.*a.com.*'' \<and>
   matchesPattern js_regexp_test ''https://axcom/'' ''*a.com*'' = Inr True \<and>
   \<not> spec_glob_match ''*a.com*'' ''https://axcom/''"
  by (simp add: matchesPattern_def js_regexp_test_def glob_to_regex_def replace_all_def
      is_syntax_char_def line_terminator_def)

subsection \<open>The counters of a completed scan\<close>

text \<open>
  Claim C1, as amended.  On completion the scan row gets \<open>total_pages\<close> = the number of
  results and \<open>new_pages\<close> = the number of results whose response code is exactly 200; no
  previous scan is consulted, and \<open>changed_pages\<close> and \<open>removed_pages\<close> keep the values the
  row had.  When no result has a response code below 200, \<open>error_pages\<close> is the number
  of results with a response code outside \<open>[200, 400)\<close>.
\<close>

theorem complete_scan_counters:
  "scan_status (complete_scan now urls results s) = ScanCompleted \<and>
   total_pages (complete_scan now urls results s) = int (length results) \<and>
   new_pages (complete_scan now urls results s) =
     int (length (filter (\<lambda>r. response_code r = 200) results)) \<and>
   changed_pages (complete_scan now urls results s) = changed_pages s \<and>
   removed_pages (complete_scan now urls results s) = removed_pages s \<and>
   (list_all (\<lambda>r. 200 \<le> response_code r) results \<longrightarrow>
      error_pages (complete_scan now urls results s) = spec_errorPages results)"
proof -
  have "filter (\<lambda>r. 400 \<le> response_code r) results =
        filter (\<lambda>r. \<not> (200 \<le> response_code r \<and> response_code r < 400)) results"
    if "list_all (\<lambda>r. 200 \<le> response_code r) results"
    using that by (intro filter_cong) (auto simp: list_all_iff)
  then show ?thesis by (simp add: complete_scan_def spec_errorPages_def)
qed

theorem complete_scan_counters_witness:
  "list_all (\<lambda>r. 200 \<le> response_code r) second_results \<and>
   total_pages (complete_scan 5000 [''https://a.example/a''] second_results fresh_scan) = 1 \<and>
   error_pages (complete_scan 5000 [''https://a.example/a''] second_results fresh_scan) =
     spec_errorPages second_results"
proof -
  have h: "list_all (\<lambda>r. 200 \<le> response_code r) second_results"
    by (simp add: second_results_def)
  from complete_scan_counters [of 5000 "[''https://a.example/a'']" second_results fresh_scan] h
  show ?thesis by (simp add: second_results_def)
qed

text \<open>
  The claim as stated fails: for a second scan that finds one of the two pages of the
  previous scan, unchanged, the specification's counters are 0 new and 1 removed pages;
  the row written has 1 new and 0 removed pages.
\<close>

theorem complete_scan_counterexample:
  "spec_newPages previous_scan second_results = 0 \<and>
   new_pages (complete_scan 5000 [''https://a.example/a''] second_results fresh_scan) = 1 \<and>
   spec_removedPages previous_scan second_results = 1 \<and>
   removed_pages (complete_scan 5000 [''https://a.example/a''] second_results fresh_scan) = 0"
  by (simp add: spec_newPages_def spec_removedPages_def complete_scan_def previous_scan_def
      second_results_def fresh_scan_def)

subsection \<open>Severity of a page result\<close>

lemma severity_of_Nil: "severity_of [] = Low"
  by (simp add: severity_of_def)

lemma severity_of_member:
  assumes "cs \<noteq> []"
  shows "\<exists>c\<in>set cs. severity_of cs = impact c"
proof -
  consider (h) "\<exists>c\<in>set cs. impact c = High"
    | (m) "\<not> (\<exists>c\<in>set cs. impact c = High)" "\<exists>c\<in>set cs. impact c = Medium"
    | (l) "\<not> (\<exists>c\<in>set cs. impact c = High)" "\<not> (\<exists>c\<in>set cs. impact c = Medium)"
    by blast
  then show ?thesis
  proof cases
    case h
    then have "severity_of cs = High" by (simp add: severity_of_def list_ex_iff)
    with h show ?thesis by force
  next
    case m
    then have "severity_of cs = Medium" by (simp add: severity_of_def list_ex_iff)
    with m show ?thesis by force
  next
    case l
    from assms obtain c where c: "c \<in> set cs" by (cases cs) auto
    with l have "impact c = Low" by (cases "impact c") auto
    moreover from l have "severity_of cs = Low" by (simp add: severity_of_def list_ex_iff)
    ultimately show ?thesis using c by force
  qed
qed

lemma severity_of_upper:
  assumes "c \<in> set cs"
  shows "impact_rank (impact c) \<le> impact_rank (severity_of cs)"
  using assms by (cases "impact c") (auto simp: severity_of_def list_ex_iff)

lemma compare_page_severity:
  "severity (compare_page bm cm u) = severity_of (changes (compare_page bm cm u))"
  by (simp add: compare_page_def Let_def)

lemma pageChanges_compareRuns:
  "\<exists>bm cm us. pageChanges (compareRuns bs cs) = map (compare_page bm cm) us"
  unfolding compareRuns_def Let_def by (simp del: map_append) blast

lemma compareRuns_severity:
  assumes "r \<in> set (pageChanges (compareRuns bs cs))"
  shows "severity r = severity_of (changes r)"
proof -
  from pageChanges_compareRuns obtain bm cm us
    where "pageChanges (compareRuns bs cs) = map (compare_page bm cm) us" by blast
  with assms obtain u where "r = compare_page bm cm u" by auto
  then show ?thesis by (simp only: compare_page_severity)
qed

text \<open>
  Claim C5, as amended.  For every page result of a run comparison with a non-empty
  change list, the severity is the impact of one of the changes and no change has a
  greater impact (in the order \<open>low < medium < high\<close>); for an empty change list the
  severity is \<open>low\<close>.
\<close>

theorem severity_is_max_impact:
  assumes "r \<in> set (pageChanges (compareRuns bs cs))"
  shows "(changes r = [] \<longrightarrow> severity r = Low) \<and>
         (changes r \<noteq> [] \<longrightarrow>
            (\<exists>c\<in>set (changes r). severity r = impact c) \<and>
            (\<forall>c\<in>set (changes r). impact_rank (impact c) \<le> impact_rank (severity r)))"
proof -
  have s: "severity r = severity_of (changes r)"
    using assms by (rule compareRuns_severity)
  have a: "changes r = [] \<longrightarrow> severity r = Low"
    by (simp add: s severity_of_Nil)
  have b: "changes r \<noteq> [] \<longrightarrow> (\<exists>c\<in>set (changes r). severity r = impact c)"
    unfolding s by (rule impI) (rule severity_of_member)
  have c: "\<forall>c\<in>set (changes r). impact_rank (impact c) \<le> impact_rank (severity r)"
    unfolding s by (rule ballI) (rule severity_of_upper)
  from a b c show ?thesis by blast
qed

theorem severity_is_max_impact_witness:
  "pageChanges (compareRuns [about_page] [titled_page]) =
     [\<lparr>page_url = ''https://a.example/about'', baseSnapshot = Some about_page,
       compareSnapshot = Some titled_page, changeType = PageModified,
       changes = [\<lparr>field = ''title'', change_type = Modified, oldValue = None,
                   newValue = Some ''About'', impact = High\<rparr>],
       severity = High\<rparr>] \<and>
   (\<exists>c\<in>set (changes (hd (pageChanges (compareRuns [about_page] [titled_page])))).
      severity (hd (pageChanges (compareRuns [about_page] [titled_page]))) = impact c)"
proof -
  have ev: "pageChanges (compareRuns [about_page] [titled_page]) =
     [\<lparr>page_url = ''https://a.example/about'', baseSnapshot = Some about_page,
       compareSnapshot = Some titled_page, changeType = PageModified,
       changes = [\<lparr>field = ''title'', change_type = Modified, oldValue = None,
                   newValue = Some ''About'', impact = High\<rparr>],
       severity = High\<rparr>]"
    by code_simp
  then have mem: "hd (pageChanges (compareRuns [about_page] [titled_page]))
      \<in> set (pageChanges (compareRuns [about_page] [titled_page]))"
    by simp
  have ne: "changes (hd (pageChanges (compareRuns [about_page] [titled_page]))) \<noteq> []"
    by (simp add: ev)
  have ex: "\<exists>c\<in>set (changes (hd (pageChanges (compareRuns [about_page] [titled_page])))).
      severity (hd (pageChanges (compareRuns [about_page] [titled_page]))) = impact c"
    using severity_is_max_impact [OF mem] ne by blast
  from ev ex show ?thesis by (rule conjI)
qed

text \<open>
  The claim as stated fails: a page that is the same in both runs has an empty change
  list, for which the specification gives no severity; the result carries \<open>low\<close>.
\<close>

theorem severity_counterexample:
  "pageChanges (compareRuns [about_page] [about_page]) =
     [\<lparr>page_url = ''https://a.example/about'', baseSnapshot = Some about_page,
       compareSnapshot = Some about_page, changeType = PageUnchanged, changes = [],
       severity = Low\<rparr>] \<and>
   spec_severity [] = None"
  by code_simp

subsection \<open>Swapping the two runs of a comparison\<close>

text \<open>
  Claim C4 fails on the code.  A page with a meta description and no title that exists
  only in the second run is reported as added, with one change of medium impact and
  severity \<open>medium\<close>.  With the runs swapped it is reported as removed with no change at
  all and severity \<open>low\<close>: the branch of \<open>compareSnapshots\<close> for a removed page does not
  look at the meta description, which the branch for an added page does.
\<close>

theorem compareRuns_swap_asymmetric:
  "pageChanges (compareRuns [] [about_page]) =
     [\<lparr>page_url = ''https://a.example/about'', baseSnapshot = None,
       compareSnapshot = Some about_page, changeType = PageAdded,
       changes = [\<lparr>field = ''metaDescription'', change_type = Added, oldValue = None,
                   newValue = Some ''About us'', impact = Medium\<rparr>],
       severity = Medium\<rparr>] \<and>
   pageChanges (compareRuns [about_page] []) =
     [\<lparr>page_url = ''https://a.example/about'', baseSnapshot = Some about_page,
       compareSnapshot = None, changeType = PageRemoved, changes = [],
       severity = Low\<rparr>]"
  by code_simp

subsection \<open>\<open>deepMerge\<close>\<close>

lemma plain_entries_no_hasOwnProperty:
  "plain_entries es \<Longrightarrow> map_of es ''hasOwnProperty'' = None"
  by (induction es) auto

lemma lookup_total:
  assumes "target \<noteq> JNull" and "target \<noteq> JUndefined" and "k \<noteq> ''__proto__''"
  shows "\<exists>u. lookup inh target k = Inr u"
  using assms by (simp add: lookup_def split: option.splits)

lemma assign_total: "k \<noteq> ''__proto__'' \<Longrightarrow> assign k x res = Inr (AList.update k x res)"
  by (simp add: assign_def)

lemma deepMerge_total:
    "plain_keys source \<Longrightarrow> target \<noteq> JNull \<Longrightarrow> \<exists>m. deepMerge inh target source = Inr m"
  and merge_keys_total:
    "plain_entries es \<Longrightarrow> map_of src ''hasOwnProperty'' = None \<Longrightarrow>
     target' \<noteq> JNull \<Longrightarrow> target' \<noteq> JUndefined \<Longrightarrow>
     \<exists>r. merge_keys inh target' src es res = Inr r"
proof (induction inh target source and inh target' src es res rule: deepMerge_merge_keys.induct)
  case (1 inh target source)
  show ?case
  proof (cases source)
    case (JObj entries)
    show ?thesis
    proof (cases "typeof_object target")
      case True
      then have nu: "target \<noteq> JUndefined" by auto
      from "1.prems" JObj have pe: "plain_entries entries" by simp
      then have "map_of entries ''hasOwnProperty'' = None"
        by (rule plain_entries_no_hasOwnProperty)
      with 1 JObj True pe nu
      obtain r where "merge_keys inh target entries entries (spread target) = Inr r"
        by auto
      with JObj True show ?thesis by simp
    next
      case False
      with JObj show ?thesis by simp
    qed
  qed simp_all
next
  case (2 inh target src res)
  show ?case by simp
next
  case (3 inh target src key v rest res)
  note nn = \<open>target \<noteq> JNull\<close> \<open>target \<noteq> JUndefined\<close>
  note hop = \<open>map_of src ''hasOwnProperty'' = None\<close>
  from "3.prems"(1) have pv: "plain_keys v" and pr: "plain_entries rest"
    and proto: "key = ''__proto__'' \<longrightarrow> v = JNull \<or> v = JUndefined"
    by simp_all
  have hop': "\<not> map_of src ''hasOwnProperty'' \<noteq> None" using hop by simp
  show ?case
  proof (cases "v = JNull \<or> v = JUndefined")
    case True
    from "3.IH"(1) [OF hop' True pr hop nn] hop True show ?thesis by auto
  next
    case False
    with proto have key: "key \<noteq> ''__proto__''" by blast
    note asg = assign_total [OF key]
    show ?thesis
    proof (cases v)
      case (JObj kvs)
      from nn key obtain u where u: "lookup inh target key = Inr u"
        using lookup_total by blast
      show ?thesis
      proof (cases u)
        case InheritedFunction
        from "3.IH"(10) [OF hop' False JObj u InheritedFunction asg pr hop nn]
        obtain r where "merge_keys inh target src rest (AList.update key v res) = Inr r" ..
        with hop False JObj u InheritedFunction asg [of v res]
        show ?thesis by simp
      next
        case (Value tv)
        let ?t = "if truthy tv then tv else JObj []"
        have tn: "?t \<noteq> JNull" by auto
        from "3.IH"(8) [OF hop' False JObj u Value pv tn]
        obtain m where m: "deepMerge inh ?t v = Inr m" ..
        from "3.IH"(9) [OF hop' False JObj u Value m asg pr hop nn]
        obtain r where "merge_keys inh target src rest (AList.update key m res) = Inr r" ..
        with hop False JObj u Value m asg [of m res]
        show ?thesis by simp
      qed
    next
      case JNull with False show ?thesis by simp
    next
      case JUndefined with False show ?thesis by simp
    next
      case (JBool b)
      from "3.IH"(4) [OF hop' False JBool asg pr hop nn]
      obtain r where "merge_keys inh target src rest (AList.update key v res) = Inr r" ..
      with hop False JBool asg [of v res] show ?thesis by simp
    next
      case (JNum n)
      from "3.IH"(5) [OF hop' False JNum asg pr hop nn]
      obtain r where "merge_keys inh target src rest (AList.update key v res) = Inr r" ..
      with hop False JNum asg [of v res] show ?thesis by simp
    next
      case (JStr s)
      from "3.IH"(6) [OF hop' False JStr asg pr hop nn]
      obtain r where "merge_keys inh target src rest (AList.update key v res) = Inr r" ..
      with hop False JStr asg [of v res] show ?thesis by simp
    next
      case (JArr xs)
      from "3.IH"(7) [OF hop' False JArr asg pr hop nn]
      obtain r where "merge_keys inh target src rest (AList.update key v res) = Inr r" ..
      with hop False JArr asg [of v res] show ?thesis by simp
    qed
  qed
qed






lemma deepMerge_empty: "deepMerge inh (JObj t) (JObj []) = Inr (JObj t)"
  by simp




subsection \<open>Breadcrumb precedence\<close>

text \<open>
  Claim C8 fails on the code.  The document \<open>null_item_doc\<close> has a JSON-LD
  \<open>BreadcrumbList\<close> whose \<open>itemListElement\<close> yields the name \<open>A\<close>, followed by a \<open>null\<close>
  element.  Reading \<open>name\<close> of \<open>null\<close> throws after \<open>A\<close> has been pushed; the exception is
  caught by the handler meant for invalid JSON, the function does not return, and the
  selector fallback adds the text \<open>B\<close> of the \<open>.breadcrumb\<close> element: the result is
  \<open>A, B\<close> and not the names of the list.
\<close>

theorem extractBreadcrumbs_null_item:
  "spec_names null_item_list = [JStr ''A''] \<and>
   extractBreadcrumbs null_item_doc = [JStr ''A'', JStr ''B'']"
  by code_simp

text \<open>
  Where no element of \<open>itemListElement\<close> is \<open>null\<close>, the precedence holds: if the scripts
  before the list push nothing, and the list yields at least one name, the result is
  the names of the list whatever the selectors match.
\<close>

lemma get_prop_total:
  "target \<noteq> JNull \<Longrightarrow> target \<noteq> JUndefined \<Longrightarrow> \<exists>v. get_prop target k = Inr v"
  by (cases target) simp_all

lemma push_names_no_null:
  assumes "JNull \<notin> set items" and "JUndefined \<notin> set items"
  shows "push_names bs items = (Inr (), bs @ item_names items)"
  using assms
proof (induction items arbitrary: bs)
  case Nil
  show ?case by (simp add: item_names_def)
next
  case (Cons item items)
  then have "item \<noteq> JNull" "item \<noteq> JUndefined" by auto
  then obtain n where n: "get_prop item ''name'' = Inr n"
    using get_prop_total by blast
  from Cons have "push_names (if truthy n then bs @ [n] else bs) items =
      (Inr (), (if truthy n then bs @ [n] else bs) @ item_names items)"
    by simp
  with n show ?case by (simp add: item_names_def)
qed

lemma jsonld_loop_skip:
  assumes "\<forall>m\<in>set pre. script_step [] m = (False, [])"
  shows "jsonld_loop [] (pre @ ms) = jsonld_loop [] ms"
  using assms by (induction pre) simp_all

lemma extractBreadcrumbs_jsonld_first:
  assumes scripts: "jsonld_scripts doc = pre @ Some d # post"
    and pre: "\<forall>m\<in>set pre. script_step [] m = (False, [])"
    and ty: "get_prop d ''@type'' = Inr (JStr ''BreadcrumbList'')"
    and items: "get_prop d ''itemListElement'' = Inr (JArr items)"
    and nonull: "JNull \<notin> set items" "JUndefined \<notin> set items"
    and some: "spec_names d \<noteq> []"
  shows "extractBreadcrumbs doc = spec_names d"
proof -
  have names: "spec_names d = item_names items"
    by (simp add: spec_names_def items item_names_def)
  have "script_step [] (Some d) = (True, item_names items)"
    using some by (simp add: script_step_def ty items push_names_no_null [OF nonull] names)
  then have "jsonld_loop [] (Some d # post) = (True, item_names items)" by simp
  then have "jsonld_loop [] (jsonld_scripts doc) = (True, item_names items)"
    by (simp add: scripts jsonld_loop_skip [OF pre])
  then show ?thesis by (simp add: extractBreadcrumbs_def names)
qed

end
